theory Spec2Isabelle
  imports Complex_Main "HOL-Library.Word" "HOL-Library.Extended_Nat" "HOL-Library.AList"
begin

section \<open>Errors and results\<close>

text \<open>
  Every \<^verbatim>\<open>throw\<close> of the source is a value: the class of the thrown object
  with its message, and for a \<^verbatim>\<open>DOMException\<close> its name as well. An operation
  returns its result together with the state it leaves behind, so that the state at
  the moment of a \<^verbatim>\<open>throw\<close> stays visible.
\<close>

datatype error =
    TypeError string
  | RangeError string
  | Error string
  | DOMException string string

type_synonym 'a result = "error + 'a"

section \<open>Buffer utilities (utils.ts)\<close>

type_synonym byte = "8 word"
type_synonym ArrayBuffer = "byte list"

text \<open>\<^verbatim>\<open>new ArrayBuffer(n)\<close>: \<open>n\<close> zero bytes.\<close>

definition newArrayBuffer :: "nat \<Rightarrow> ArrayBuffer" where
  "newArrayBuffer n = replicate n 0"

text \<open>
  \<^verbatim>\<open>TypedArray.prototype.slice(start, end)\<close>: a negative index counts from the
  end, both indices are clamped to the length.
\<close>

definition relativeIndex :: "nat \<Rightarrow> int \<Rightarrow> nat" where
  "relativeIndex len k = (if k < 0 then nat (max (int len + k) 0) else min (nat k) len)"

definition typedArraySlice :: "'a list \<Rightarrow> int \<Rightarrow> int \<Rightarrow> 'a list" where
  "typedArraySlice xs start end' =
     (let a = relativeIndex (length xs) start; b = relativeIndex (length xs) end'
      in take (b - a) (drop a xs))"

text \<open>
  \<^verbatim>\<open>TypedArray.prototype.set(chunk, offset)\<close>: overwrites in place, and raises a
  \<^verbatim>\<open>RangeError\<close> when the chunk does not fit.
\<close>

definition typedArraySet :: "ArrayBuffer \<Rightarrow> ArrayBuffer \<Rightarrow> nat \<Rightarrow> ArrayBuffer result" where
  "typedArraySet destination chunk offset =
     (if offset + length chunk > length destination then Inl (RangeError ''offset is out of bounds'')
      else Inr (take offset destination @ chunk @ drop (offset + length chunk) destination))"

record CopyArrayBufferOptions =
  sourceStartOffset :: "int option"
  sourceEndOffset :: "int option"
  destinationOffset :: "int option"

definition noOptions :: CopyArrayBufferOptions where
  "noOptions = \<lparr>sourceStartOffset = None, sourceEndOffset = None, destinationOffset = None\<rparr>"

text \<open>
  \<^verbatim>\<open>copyArrayBuffer(source, destination, options)\<close> writes into the destination
  and returns the number of bytes copied; the model returns that number with the new
  contents of the destination.
\<close>

definition copyArrayBuffer ::
  "ArrayBuffer \<Rightarrow> ArrayBuffer \<Rightarrow> CopyArrayBufferOptions \<Rightarrow> (nat \<times> ArrayBuffer) result" where
  "copyArrayBuffer source destination options =
     (let sourceStart = (case sourceStartOffset options of None \<Rightarrow> 0 | Some v \<Rightarrow> v);
          sourceEnd = (case sourceEndOffset options of None \<Rightarrow> int (length source) | Some v \<Rightarrow> v);
          destinationOff = (case destinationOffset options of None \<Rightarrow> 0 | Some v \<Rightarrow> v)
      in if sourceStart < 0 \<or> sourceStart > int (length source) then
           Inl (RangeError ''Option 'sourceStartOffset' must be between 0 and source ArrayBuffer's byte length.'')
         else if sourceEnd < sourceStart then
           Inl (RangeError ''Option 'sourceEndOffset' must be greater than of equal option 'sourceStartOffset' '')
         else if destinationOff < 0 \<or> destinationOff > int (length destination) then
           Inl (RangeError ''Option 'destinationOffset' must be between 0 and destination ArrayBuffer's byte length.'')
         else
           (let bytesToWrite = sourceEnd - sourceStart;
                availableMemory = int (length destination) - destinationOff;
                sliceEnd = (if bytesToWrite > availableMemory
                            then sourceEnd - (bytesToWrite - availableMemory) else sourceEnd);
                chunk = (if sourceStart \<noteq> 0 \<or> sliceEnd < int (length source)
                         then typedArraySlice source sourceStart sliceEnd else source)
            in case typedArraySet destination chunk (nat destinationOff) of
                 Inl e \<Rightarrow> Inl e
               | Inr written \<Rightarrow> Inr (length chunk, written)))"

text \<open>
  \<^verbatim>\<open>concatArrayBuffers\<close> is a \<^verbatim>\<open>reduce\<close> from the empty buffer; each step
  allocates the target and copies both parts into it.
\<close>

definition concatStep :: "ArrayBuffer result \<Rightarrow> ArrayBuffer \<Rightarrow> ArrayBuffer result" where
  "concatStep acc buffer =
     (case acc of
        Inl e \<Rightarrow> Inl e
      | Inr concatenated \<Rightarrow>
          (let targetBuffer = newArrayBuffer (length concatenated + length buffer)
           in case copyArrayBuffer concatenated targetBuffer noOptions of
                Inl e \<Rightarrow> Inl e
              | Inr (_, target1) \<Rightarrow>
                  (case copyArrayBuffer buffer target1
                          (noOptions\<lparr>destinationOffset := Some (int (length concatenated))\<rparr>) of
                     Inl e \<Rightarrow> Inl e
                   | Inr (_, target2) \<Rightarrow> Inr target2)))"

definition concatArrayBuffers :: "ArrayBuffer list \<Rightarrow> ArrayBuffer result" where
  "concatArrayBuffers bufferSources = foldl concatStep (Inr (newArrayBuffer 0)) bufferSources"

definition appendNullBytes :: "ArrayBuffer \<Rightarrow> nat \<Rightarrow> ArrayBuffer result" where
  "appendNullBytes buffer count = concatArrayBuffers [buffer, replicate count 0]"

section \<open>Path utilities (utils.ts)\<close>

text \<open>\<^verbatim>\<open>path.split(/[/\\]/g)\<close>: cut at every slash and backslash.\<close>

definition isSeparator :: "char \<Rightarrow> bool" where
  "isSeparator c \<longleftrightarrow> c = CHR ''/'' \<or> c = CHR 0x5C"

fun splitPath :: "string \<Rightarrow> string list" where
  "splitPath [] = [[]]"
| "splitPath (c # cs) =
     (if isSeparator c then [] # splitPath cs
      else (case splitPath cs of [] \<Rightarrow> [[c]] | x # xs \<Rightarrow> (c # x) # xs))"

definition pathSegments :: "string \<Rightarrow> string list" where
  "pathSegments path = filter (\<lambda>segment. length segment \<noteq> 0) (splitPath path)"

text \<open>\<^verbatim>\<open>segments.join("/")\<close>.\<close>

fun joinPath :: "string list \<Rightarrow> string" where
  "joinPath [] = []"
| "joinPath [x] = x"
| "joinPath (x # y # ys) = x @ CHR ''/'' # joinPath (y # ys)"

definition dirname :: "string \<Rightarrow> string option" where
  "dirname path =
     (let segments = pathSegments path
      in if length segments = 0 then None else Some (joinPath (butlast segments)))"

text \<open>\<^verbatim>\<open>path.replace(/\/+$/, "")\<close>: drop the slashes at the end.\<close>

definition stripTrailingSlashes :: "string \<Rightarrow> string" where
  "stripTrailingSlashes path = rev (dropWhile (\<lambda>c. c = CHR ''/'') (rev path))"

definition startsWith :: "string \<Rightarrow> string \<Rightarrow> bool" where
  "startsWith s p \<longleftrightarrow> take (length p) s = p"

definition isSubPath :: "string \<Rightarrow> string \<Rightarrow> bool" where
  "isSubPath subPath path =
     startsWith subPath (if path \<noteq> [] then stripTrailingSlashes path @ ''/'' else path)"

definition relativePath :: "string \<Rightarrow> string \<Rightarrow> string result" where
  "relativePath subPath path =
     (if \<not> isSubPath subPath path then Inl (Error (subPath @ '' is not sub-path of '' @ path))
      else Inr (joinPath (drop (length (pathSegments path)) (pathSegments subPath))))"

definition isChildPath :: "string \<Rightarrow> string \<Rightarrow> bool" where
  "isChildPath childPath path =
     (if \<not> isSubPath childPath path then False
      else (case relativePath childPath path of
              Inl _ \<Rightarrow> False
            | Inr relative \<Rightarrow> CHR ''/'' \<notin> set relative))"

section \<open>FileSystem (file-system/FileSystem.ts)\<close>

text \<open>
  Descriptors are objects: the registry and the disk hold references to them, callers
  keep references to them, and \<^verbatim>\<open>writeFile\<close> updates them in place. A reference
  is a number, the object store \<open>heap\<close> gives the object behind it, and \<open>nextRef\<close>
  is the next unused reference. A directory descriptor has no \<^verbatim>\<open>size\<close> and no
  \<^verbatim>\<open>lastModified\<close>; the model never reads them for a directory. The \<^verbatim>\<open>size\<close>
  of a file descriptor is a number: \<^verbatim>\<open>createFile\<close> stores the number it is given.
\<close>

datatype EntryType = Dir | File

text \<open>
  A number of the source: a rational (every finite double is one; the rounding of doubles
  is outside the model), \<^verbatim>\<open>Infinity\<close>, \<^verbatim>\<open>-Infinity\<close> or \<^verbatim>\<open>NaN\<close>.
  \<open>Num k\<close> is the whole number \<open>k\<close>. \<open>gt_number\<close> is \<^verbatim>\<open>>\<close> and
  \<open>plus_number\<close> is \<^verbatim>\<open>+\<close> on numbers.
\<close>

datatype number = Rational rat | Infinity | MinusInfinity | NotANumber

abbreviation Num :: "int \<Rightarrow> number" where
  "Num k \<equiv> Rational (of_int k)"

fun gt_number :: "number \<Rightarrow> number \<Rightarrow> bool" where
  "gt_number (Rational a) (Rational b) = (a > b)"
| "gt_number (Rational a) MinusInfinity = True"
| "gt_number Infinity (Rational b) = True"
| "gt_number Infinity MinusInfinity = True"
| "gt_number _ _ = False"

fun plus_number :: "number \<Rightarrow> number \<Rightarrow> number" where
  "plus_number (Rational a) (Rational b) = Rational (a + b)"
| "plus_number NotANumber _ = NotANumber"
| "plus_number _ NotANumber = NotANumber"
| "plus_number Infinity MinusInfinity = NotANumber"
| "plus_number MinusInfinity Infinity = NotANumber"
| "plus_number Infinity _ = Infinity"
| "plus_number _ Infinity = Infinity"
| "plus_number MinusInfinity _ = MinusInfinity"

text \<open>
  \<^verbatim>\<open>new ArrayBuffer(length)\<close> with a number for the length: the length is converted to
  an index (\<^verbatim>\<open>NaN\<close> becomes 0, a fraction is cut off towards 0), and a negative or too
  large index raises a \<^verbatim>\<open>RangeError\<close>.
\<close>

definition truncated :: "rat \<Rightarrow> int" where
  "truncated q = (if q < 0 then - \<lfloor>- q\<rfloor> else \<lfloor>q\<rfloor>)"

definition newArrayBufferOf :: "number \<Rightarrow> ArrayBuffer result" where
  "newArrayBufferOf v =
     (case v of
        NotANumber \<Rightarrow> Inr (newArrayBuffer 0)
      | Rational q \<Rightarrow>
          if truncated q < 0 \<or> truncated q > 2 ^ 53 - 1
          then Inl (RangeError ''Invalid array buffer length'')
          else Inr (newArrayBuffer (nat (truncated q)))
      | Infinity \<Rightarrow> Inl (RangeError ''Invalid array buffer length'')
      | MinusInfinity \<Rightarrow> Inl (RangeError ''Invalid array buffer length''))"

record Descriptor =
  type :: EntryType
  fullPath :: string
  size_bytes :: number
  lastModified :: "nat option"

type_synonym ref = nat

text \<open>
  The two \<^verbatim>\<open>Map\<close>s keep their keys in insertion order (\<^verbatim>\<open>Array.from(keys())\<close>
  is read by the source), so they are association lists: \<^verbatim>\<open>set\<close> is
  \<^const>\<open>AList.update\<close>, \<^verbatim>\<open>delete\<close> is \<^const>\<open>AList.delete\<close>, \<^verbatim>\<open>get\<close> is
  \<^const>\<open>map_of\<close>. The disk size is a whole number of bytes, not negative,
  or \<^verbatim>\<open>Infinity\<close>.
\<close>

record FileSystem =
  registry :: "(string \<times> ref) list"
  disk :: "(ref \<times> ArrayBuffer) list"
  diskSize :: enat
  heap :: "ref \<Rightarrow> Descriptor"
  nextRef :: ref

definition newObject :: "FileSystem \<Rightarrow> Descriptor \<Rightarrow> ref \<times> FileSystem" where
  "newObject s d = (nextRef s, s\<lparr>heap := (heap s)(nextRef s := d), nextRef := Suc (nextRef s)\<rparr>)"

definition directoryDescriptor :: "string \<Rightarrow> Descriptor" where
  "directoryDescriptor path = \<lparr>type = Dir, fullPath = path, size_bytes = Num 0, lastModified = None\<rparr>"

definition newFileSystem :: "enat \<Rightarrow> FileSystem" where
  "newFileSystem diskSize0 =
     \<lparr>registry = [([], 0)], disk = [], diskSize = diskSize0,
      heap = (\<lambda>_. directoryDescriptor []), nextRef = 1\<rparr>"

definition exists :: "FileSystem \<Rightarrow> string \<Rightarrow> bool" where
  "exists s path \<longleftrightarrow> map_of (registry s) path \<noteq> None"

definition isDirectory :: "FileSystem \<Rightarrow> string \<Rightarrow> bool" where
  "isDirectory s path =
     (case map_of (registry s) path of None \<Rightarrow> False | Some descriptor \<Rightarrow> type (heap s descriptor) = Dir)"

definition isFile :: "FileSystem \<Rightarrow> string \<Rightarrow> bool" where
  "isFile s path =
     (case map_of (registry s) path of None \<Rightarrow> False | Some descriptor \<Rightarrow> type (heap s descriptor) = File)"

definition getDescriptor :: "FileSystem \<Rightarrow> string \<Rightarrow> ref option" where
  "getDescriptor s path = map_of (registry s) path"

definition getTotalDiskSpace :: "FileSystem \<Rightarrow> enat" where
  "getTotalDiskSpace s = diskSize s"

definition getUsedDiskSpace :: "FileSystem \<Rightarrow> nat" where
  "getUsedDiskSpace s = foldl (\<lambda>total buffer. total + length buffer) 0 (map snd (disk s))"

definition getFreeDiskSpace :: "FileSystem \<Rightarrow> number" where
  "getFreeDiskSpace s =
     (case diskSize s of
        enat d \<Rightarrow> Num (int d - int (getUsedDiskSpace s))
      | \<infinity> \<Rightarrow> Infinity)"

definition setTotalDiskSpace :: "FileSystem \<Rightarrow> enat \<Rightarrow> unit result \<times> FileSystem" where
  "setTotalDiskSpace s newSize =
     (let usedSpace = getUsedDiskSpace s
      in if newSize < enat usedSpace then (Inl (RangeError ''Can't set disk space because of used space size''), s)
         else (Inr (), s\<lparr>diskSize := newSize\<rparr>))"

definition registerDirectory :: "FileSystem \<Rightarrow> string \<Rightarrow> ref result \<times> FileSystem" where
  "registerDirectory s path =
     (let (descriptor, s1) = newObject s (directoryDescriptor path)
      in (Inr descriptor, s1\<lparr>registry := AList.update path descriptor (registry s1)\<rparr>))"

text \<open>
  \<^verbatim>\<open>makeDirectory\<close> calls itself on the parent path, which has one segment less.
\<close>

lemma splitPath_not_Nil: "splitPath p \<noteq> []"
  by (induction p) (auto split: list.splits)

lemma splitPath_all_clean: "\<forall>x \<in> set (splitPath p). \<forall>c \<in> set x. \<not> isSeparator c"
  by (induction p) (auto split: list.splits)

lemma splitPath_no_separator: "x \<in> set (splitPath p) \<Longrightarrow> \<forall>c \<in> set x. \<not> isSeparator c"
  using splitPath_all_clean by blast

lemma splitPath_no_separators: "splitPath x = [x] \<longleftrightarrow> (\<forall>c \<in> set x. \<not> isSeparator c)"
  by (induction x) (auto split: list.splits simp: splitPath_not_Nil)

lemma splitPath_append:
  "\<forall>c \<in> set x. \<not> isSeparator c \<Longrightarrow> splitPath (x @ CHR ''/'' # rest) = x # splitPath rest"
  by (induction x) (auto simp: isSeparator_def)

lemma splitPath_joinPath:
  "xs \<noteq> [] \<Longrightarrow> \<forall>x \<in> set xs. \<forall>c \<in> set x. \<not> isSeparator c \<Longrightarrow> splitPath (joinPath xs) = xs"
proof (induction xs rule: joinPath.induct)
  case 1
  then show ?case by simp
next
  case (2 x)
  then show ?case by (simp add: splitPath_no_separators)
next
  case (3 x y ys)
  then show ?case by (simp add: splitPath_append)
qed

lemma pathSegments_joinPath:
  assumes "\<forall>x \<in> set xs. x \<noteq> [] \<and> (\<forall>c \<in> set x. \<not> isSeparator c)"
  shows "pathSegments (joinPath xs) = xs"
proof (cases "xs = []")
  case True
  then show ?thesis by (simp add: pathSegments_def)
next
  case False
  with assms have "splitPath (joinPath xs) = xs"
    by (intro splitPath_joinPath) auto
  with assms show ?thesis
    by (simp add: pathSegments_def filter_id_conv)
qed

lemma pathSegments_clean:
  "x \<in> set (pathSegments p) \<Longrightarrow> x \<noteq> [] \<and> (\<forall>c \<in> set x. \<not> isSeparator c)"
  using splitPath_no_separator by (auto simp: pathSegments_def)

lemma pathSegments_dirname:
  assumes "dirname path = Some dirName"
  shows "pathSegments path \<noteq> [] \<and> pathSegments dirName = butlast (pathSegments path)"
proof -
  from assms have ne: "pathSegments path \<noteq> []" and d: "dirName = joinPath (butlast (pathSegments path))"
    by (auto simp: dirname_def Let_def split: if_splits)
  have "\<forall>x \<in> set (butlast (pathSegments path)). x \<noteq> [] \<and> (\<forall>c \<in> set x. \<not> isSeparator c)"
    using pathSegments_clean in_set_butlastD by metis
  then show ?thesis using ne d by (simp add: pathSegments_joinPath)
qed

lemma dirname_shorter:
  "dirname path = Some dirName \<Longrightarrow> length (pathSegments dirName) < length (pathSegments path)"
  using pathSegments_dirname [of path dirName] by (cases "pathSegments path") auto

function makeDirectory :: "FileSystem \<Rightarrow> string \<Rightarrow> bool \<Rightarrow> ref result \<times> FileSystem" where
  "makeDirectory s path recursive =
     (if exists s path then (Inl (TypeError (path @ '' already exist.'')), s)
      else
        (case dirname path of
           None \<Rightarrow> registerDirectory s path
         | Some dirName \<Rightarrow>
             if length dirName \<noteq> 0 then
               (if \<not> exists s dirName then
                  (if \<not> recursive then
                     (Inl (TypeError ''Set 'recursive' option to true for recursive directory creation.''), s)
                   else
                     (case makeDirectory s dirName recursive of
                        (Inl e, s1) \<Rightarrow> (Inl e, s1)
                      | (Inr _, s1) \<Rightarrow> registerDirectory s1 path))
                else if \<not> isDirectory s dirName then
                  (Inl (TypeError (dirName @ '' is not directory path.'')), s)
                else registerDirectory s path)
             else registerDirectory s path))"
  by pat_completeness auto
termination
  by (relation "measure (\<lambda>(s, path, recursive). length (pathSegments path))")
     (auto simp: dirname_shorter)

declare makeDirectory.simps [simp del]

text \<open>
  \<^verbatim>\<open>allocateFile\<close>: the quota check, then the zero-filled buffer on the disk;
  \<^verbatim>\<open>new ArrayBuffer(descriptor.size)\<close> may throw.
\<close>

definition allocateFile :: "FileSystem \<Rightarrow> ref \<Rightarrow> nat \<Rightarrow> unit result \<times> FileSystem" where
  "allocateFile s descriptor now =
     (let freeSpace = getFreeDiskSpace s
      in if gt_number (size_bytes (heap s descriptor)) freeSpace then
           (Inl (RangeError ''Not enough free space.''), s)
         else
           (case newArrayBufferOf (size_bytes (heap s descriptor)) of
              Inl e \<Rightarrow> (Inl e, s)
            | Inr buffer \<Rightarrow>
                (let s1 = s\<lparr>disk := AList.update descriptor buffer (disk s)\<rparr>
                 in (Inr (), s1\<lparr>heap := (heap s1)(descriptor :=
                       (heap s1 descriptor)\<lparr>lastModified := Some now\<rparr>)\<rparr>))))"

definition newFileDescriptor :: "string \<Rightarrow> number \<Rightarrow> Descriptor" where
  "newFileDescriptor path n = \<lparr>type = File, fullPath = path, size_bytes = n, lastModified = None\<rparr>"

text \<open>
  \<^verbatim>\<open>createFile(path, {size})\<close>; \<open>sizeOption = None\<close> is a call without
  \<^verbatim>\<open>size\<close>, and \<open>now\<close> is the value of \<^verbatim>\<open>Date.now()\<close>.
\<close>

definition createFile :: "FileSystem \<Rightarrow> string \<Rightarrow> number option \<Rightarrow> nat \<Rightarrow> ref result \<times> FileSystem" where
  "createFile s path sizeOption now =
     (if exists s path then (Inl (TypeError (path @ '' already exists.'')), s)
      else
        (case (case dirname path of
                 None \<Rightarrow> (Inr 0, s)
               | Some dirName \<Rightarrow>
                   if length dirName \<noteq> 0 \<and> \<not> exists s dirName
                   then makeDirectory s dirName True else (Inr 0, s)) of
           (Inl e, s1) \<Rightarrow> (Inl e, s1)
         | (Inr _, s1) \<Rightarrow>
             (let n = (case sizeOption of None \<Rightarrow> Num 0 | Some v \<Rightarrow> v);
                  (descriptor, s2) = newObject s1 (newFileDescriptor path n)
              in case allocateFile s2 descriptor now of
                   (Inl e, s3) \<Rightarrow> (Inl e, s3)
                 | (Inr _, s3) \<Rightarrow>
                     (Inr descriptor, s3\<lparr>registry := AList.update path descriptor (registry s3)\<rparr>))))"

definition throwTypeMismatchError :: "string \<Rightarrow> error" where
  "throwTypeMismatchError message = DOMException message ''TypeMismatchError''"

definition throwNotFoundError :: "string \<Rightarrow> error" where
  "throwNotFoundError message = DOMException message ''NotFoundError''"

text \<open>
  \<^verbatim>\<open>getFileDescriptor(path, {create})\<close>: \<open>createAt = Some now\<close> is \<^verbatim>\<open>create: true\<close>
  with the value of \<^verbatim>\<open>Date.now()\<close>, \<open>None\<close> is no \<^verbatim>\<open>create\<close>.
\<close>

definition getFileDescriptor ::
  "FileSystem \<Rightarrow> string \<Rightarrow> nat option \<Rightarrow> ref option result \<times> FileSystem" where
  "getFileDescriptor s path createAt =
     (if exists s path then
        (if isFile s path then (Inr (map_of (registry s) path), s)
         else (Inl (throwTypeMismatchError (path @ '' is not a file.'')), s))
      else
        (case createAt of
           Some now \<Rightarrow>
             (case createFile s path None now of
                (Inl e, s1) \<Rightarrow> (Inl e, s1)
              | (Inr descriptor, s1) \<Rightarrow> (Inr (Some descriptor), s1))
         | None \<Rightarrow> (Inr None, s)))"

definition readFile :: "FileSystem \<Rightarrow> ref \<Rightarrow> ArrayBuffer result" where
  "readFile s descriptor =
     (case map_of (disk s) descriptor of
        None \<Rightarrow> Inl (throwNotFoundError ''No file for given descriptor was found.'')
      | Some buffer \<Rightarrow> Inr buffer)"

definition writeFile :: "FileSystem \<Rightarrow> ref \<Rightarrow> ArrayBuffer \<Rightarrow> nat \<Rightarrow> unit result \<times> FileSystem" where
  "writeFile s descriptor data' now =
     (if map_of (disk s) descriptor = None then
        (Inl (throwNotFoundError ''No allocated memory for given descriptor.''), s)
      else
        (let freeSpace = getFreeDiskSpace s;
             oldFileSize = (case map_of (disk s) descriptor of None \<Rightarrow> 0 | Some b \<Rightarrow> length b)
         in if gt_number (Num (int (length data'))) (plus_number freeSpace (Num (int oldFileSize))) then
              (Inl (RangeError ''Not enough free space to write file.''), s)
            else
              (let s1 = s\<lparr>disk := AList.update descriptor data' (disk s)\<rparr>
               in (Inr (), s1\<lparr>heap := (heap s1)(descriptor :=
                     (heap s1 descriptor)\<lparr>size_bytes := Num (int (length data')), lastModified := Some now\<rparr>)\<rparr>))))"

definition getFileSize :: "FileSystem \<Rightarrow> string \<Rightarrow> nat option" where
  "getFileSize s path =
     (case getDescriptor s path of
        None \<Rightarrow> None
      | Some descriptor \<Rightarrow>
          if type (heap s descriptor) = File
          then map_option length (map_of (disk s) descriptor) else None)"

definition purge :: "FileSystem \<Rightarrow> FileSystem" where
  "purge s =
     (let (root, s1) = newObject (s\<lparr>disk := [], registry := []\<rparr>) (directoryDescriptor [])
      in s1\<lparr>registry := AList.update [] root (registry s1)\<rparr>)"

definition getDirectoryDescriptor ::
  "FileSystem \<Rightarrow> string \<Rightarrow> bool \<Rightarrow> ref option result \<times> FileSystem" where
  "getDirectoryDescriptor s path create =
     (if exists s path then
        (if isDirectory s path then (Inr (map_of (registry s) path), s)
         else (Inl (throwTypeMismatchError (path @ '' is not directory.'')), s))
      else if create then
        (case makeDirectory s path True of
           (Inl e, s1) \<Rightarrow> (Inl e, s1)
         | (Inr descriptor, s1) \<Rightarrow> (Inr (Some descriptor), s1))
      else (Inr None, s))"

definition getDescendantPaths :: "FileSystem \<Rightarrow> string \<Rightarrow> string list" where
  "getDescendantPaths s path =
     (let allPaths = map fst (registry s)
      in if length path = 0 then filter (\<lambda>p. p \<noteq> []) allPaths
         else filter (\<lambda>p. isSubPath p path) allPaths)"

definition getChildPaths :: "FileSystem \<Rightarrow> string \<Rightarrow> string list" where
  "getChildPaths s path = filter (\<lambda>p. p \<noteq> [] \<and> isChildPath p path) (map fst (registry s))"

definition getChildEntries :: "FileSystem \<Rightarrow> string \<Rightarrow> (string \<times> ref option) list" where
  "getChildEntries s path = map (\<lambda>childPath. (childPath, map_of (registry s) childPath)) (getChildPaths s path)"

definition isValidDescriptor :: "FileSystem \<Rightarrow> ref \<Rightarrow> bool" where
  "isValidDescriptor s descriptor \<longleftrightarrow> getDescriptor s (fullPath (heap s descriptor)) = Some descriptor"

text \<open>
  \<^verbatim>\<open>remove\<close> calls itself on the child paths. The first argument is the depth of calls
  allowed; the result \<open>None\<close> means that the depth did not suffice, and comes with the
  state the file system is in at that moment.
\<close>

fun remove :: "nat \<Rightarrow> FileSystem \<Rightarrow> string \<Rightarrow> bool \<Rightarrow> unit result option \<times> FileSystem"
  and removeEach :: "nat \<Rightarrow> FileSystem \<Rightarrow> string list \<Rightarrow> bool \<Rightarrow> unit result option \<times> FileSystem"
where
  "remove 0 s path recursive = (None, s)"
| "remove (Suc n) s path recursive =
     (if length path = 0 then (Some (Inl (TypeError ''Root entry is not removable.'')), s)
      else if isFile s path then
        (case getFileDescriptor s path None of
           (Inl e, s1) \<Rightarrow> (Some (Inl e), s1)
         | (Inr descriptor, s1) \<Rightarrow>
             (let s2 = (case descriptor of
                          None \<Rightarrow> s1
                        | Some d \<Rightarrow> s1\<lparr>disk := AList.delete d (disk s1)\<rparr>)
              in (Some (Inr ()), s2\<lparr>registry := AList.delete path (registry s2)\<rparr>)))
      else
        (let childPaths = getChildPaths s path
         in if length childPaths \<noteq> 0 then
              (if \<not> recursive then
                 (Some (Inl (DOMException ''Directory has children.'' ''InvalidModificationError'')), s)
               else
                 (case removeEach n s childPaths recursive of
                    (Some (Inr _), s1) \<Rightarrow> (Some (Inr ()), s1\<lparr>registry := AList.delete path (registry s1)\<rparr>)
                  | (other, s1) \<Rightarrow> (other, s1)))
            else (Some (Inr ()), s\<lparr>registry := AList.delete path (registry s)\<rparr>)))"
| "removeEach n s [] recursive = (Some (Inr ()), s)"
| "removeEach n s (childPath # rest) recursive =
     (case remove n s childPath recursive of
        (Some (Inr _), s1) \<Rightarrow> removeEach n s1 rest recursive
      | (other, s1) \<Rightarrow> (other, s1))"

section \<open>SyncAccessHandle (file-system-access-api/SyncAccessHandle.ts)\<close>

datatype HandleState = Open | Closed

text \<open>
  The handle keeps a reference to its file descriptor and to the file system; the model
  passes the file system to each operation.
\<close>

record SyncAccessHandle =
  tempFile :: ArrayBuffer
  state :: HandleState
  cursor :: nat
  fileDescriptor :: ref

definition newSyncAccessHandle :: "FileSystem \<Rightarrow> ref \<Rightarrow> bool \<Rightarrow> SyncAccessHandle result" where
  "newSyncAccessHandle fs descriptor keepContent =
     (case newArrayBufferOf (if keepContent then size_bytes (heap fs descriptor) else Num 0) of
        Inl e \<Rightarrow> Inl e
      | Inr buffer \<Rightarrow>
          (let h = \<lparr>tempFile = buffer, state = Open, cursor = 0, fileDescriptor = descriptor\<rparr>
           in if keepContent then
                (case readFile fs descriptor of
                   Inl e \<Rightarrow> Inl e
                 | Inr contents \<Rightarrow>
                     (case copyArrayBuffer contents (tempFile h) noOptions of
                        Inl e \<Rightarrow> Inl e
                      | Inr (_, copied) \<Rightarrow> Inr (h\<lparr>tempFile := copied\<rparr>)))
              else Inr h))"

definition close :: "SyncAccessHandle \<Rightarrow> SyncAccessHandle" where
  "close h = (if state h = Closed then h else h\<lparr>state := Closed\<rparr>)"

definition ensureNotClosed :: "SyncAccessHandle \<Rightarrow> unit result" where
  "ensureNotClosed h =
     (if state h = Closed
      then Inl (DOMException ''FileSystemSyncAccessHandle is closed.'' ''InvalidStateError'')
      else Inr ())"

definition ensureHasFreeMemory :: "FileSystem \<Rightarrow> SyncAccessHandle \<Rightarrow> nat \<Rightarrow> unit result" where
  "ensureHasFreeMemory fs h byteLength =
     (let oldFileSize = size_bytes (heap fs (fileDescriptor h));
          freeSpace = plus_number (getFreeDiskSpace fs) oldFileSize
      in if gt_number (Num (int byteLength)) freeSpace
         then Inl (DOMException ''Not enough free space'' ''QuotaExceededError'')
         else Inr ())"

definition flush :: "FileSystem \<Rightarrow> SyncAccessHandle \<Rightarrow> nat \<Rightarrow> unit result \<times> FileSystem" where
  "flush fs h now =
     (case ensureNotClosed h of
        Inl e \<Rightarrow> (Inl e, fs)
      | Inr _ \<Rightarrow> writeFile fs (fileDescriptor h) (tempFile h) now)"

definition getSize :: "SyncAccessHandle \<Rightarrow> nat result" where
  "getSize h = (case ensureNotClosed h of Inl e \<Rightarrow> Inl e | Inr _ \<Rightarrow> Inr (length (tempFile h)))"

text \<open>
  \<^verbatim>\<open>read(buffer, {at})\<close> fills the caller's buffer: the model returns the number of
  bytes read with the new contents of that buffer.
\<close>

definition sah_read ::
  "SyncAccessHandle \<Rightarrow> ArrayBuffer \<Rightarrow> int option \<Rightarrow> (nat \<times> ArrayBuffer) result \<times> SyncAccessHandle" where
  "sah_read h targetBuffer atOption =
     (case ensureNotClosed h of
        Inl e \<Rightarrow> (Inl e, h)
      | Inr _ \<Rightarrow>
          (let readStart = (case atOption of None \<Rightarrow> int (cursor h) | Some a \<Rightarrow> a);
               fileSize = length (tempFile h)
           in if readStart < 0 then (Inl (TypeError ''Negative reading offset is not supported''), h)
              else if readStart > int fileSize then (Inr (0, targetBuffer), h\<lparr>cursor := fileSize\<rparr>)
              else
                (let readEnd0 = readStart + int (length targetBuffer);
                     readEnd = (if readEnd0 > int fileSize then int fileSize else readEnd0)
                 in case copyArrayBuffer (tempFile h) targetBuffer
                           \<lparr>sourceStartOffset = Some readStart, sourceEndOffset = Some readEnd,
                            destinationOffset = None\<rparr> of
                      Inl e \<Rightarrow> (Inl e, h)
                    | Inr (readBytes, filled) \<Rightarrow>
                        (Inr (readBytes, filled), h\<lparr>cursor := nat readStart + readBytes\<rparr>))))"

definition sah_truncate :: "FileSystem \<Rightarrow> SyncAccessHandle \<Rightarrow> int \<Rightarrow> unit result \<times> SyncAccessHandle" where
  "sah_truncate fs h bytesLength =
     (case ensureNotClosed h of
        Inl e \<Rightarrow> (Inl e, h)
      | Inr _ \<Rightarrow>
          if bytesLength < 0 then (Inl (TypeError ''Negative file size is not supported''), h)
          else
            (case ensureHasFreeMemory fs h (nat bytesLength) of
               Inl e \<Rightarrow> (Inl e, h)
             | Inr _ \<Rightarrow>
                 (let oldSize = length (tempFile h)
                  in case (if nat bytesLength > oldSize
                           then appendNullBytes (tempFile h) (nat bytesLength - oldSize)
                           else (case copyArrayBuffer (tempFile h) (newArrayBuffer (nat bytesLength))
                                        \<lparr>sourceStartOffset = Some 0, sourceEndOffset = Some bytesLength,
                                         destinationOffset = None\<rparr> of
                                   Inl e \<Rightarrow> Inl e
                                 | Inr (_, newTempData) \<Rightarrow> Inr newTempData)) of
                       Inl e \<Rightarrow> (Inl e, h)
                     | Inr newTempFile \<Rightarrow>
                         (let h1 = h\<lparr>tempFile := newTempFile\<rparr>
                          in (Inr (), if cursor h1 > nat bytesLength
                                      then h1\<lparr>cursor := nat bytesLength\<rparr> else h1)))))"

definition sah_write ::
  "FileSystem \<Rightarrow> SyncAccessHandle \<Rightarrow> ArrayBuffer \<Rightarrow> int option \<Rightarrow> nat result \<times> SyncAccessHandle" where
  "sah_write fs h sourceBuffer atOption =
     (case ensureNotClosed h of
        Inl e \<Rightarrow> (Inl e, h)
      | Inr _ \<Rightarrow>
          (let writePosition = (case atOption of None \<Rightarrow> int (cursor h) | Some a \<Rightarrow> a)
           in if writePosition < 0 then (Inl (TypeError ''Negative writing offset is not supported''), h)
              else
                (let oldSize = length (tempFile h);
                     bufferSize = length sourceBuffer
                 in case (if nat writePosition > oldSize
                          then (case appendNullBytes (tempFile h) (nat writePosition - oldSize) of
                                  Inl e \<Rightarrow> Inl e
                                | Inr extended \<Rightarrow> Inr (h\<lparr>tempFile := extended\<rparr>))
                          else Inr h) of
                      Inl e \<Rightarrow> (Inl e, h)
                    | Inr h1 \<Rightarrow>
                        (let fileContents = tempFile h1;
                             head = typedArraySlice fileContents 0 writePosition;
                             tail = (if nat writePosition + bufferSize < oldSize
                                     then (let lastCount = oldSize - (nat writePosition + bufferSize)
                                           in typedArraySlice fileContents (int (length fileContents) - int lastCount)
                                                (int (length fileContents)))
                                     else []);
                             newSize = length head + bufferSize + length tail
                         in case ensureHasFreeMemory fs h1 newSize of
                              Inl e \<Rightarrow> (Inl e, h1)
                            | Inr _ \<Rightarrow>
                                (case concatArrayBuffers [head, sourceBuffer, tail] of
                                   Inl e \<Rightarrow> (Inl e, h1)
                                 | Inr newTempFile \<Rightarrow>
                                     (Inr bufferSize,
                                      h1\<lparr>tempFile := newTempFile,
                                         cursor := nat writePosition + bufferSize\<rparr>))))))"

section \<open>Permission (permissions/Permission.ts)\<close>

datatype PermissionState = Granted | Denied | Prompt

datatype FileSystemPermissionMode = ModeRead | ModeReadwrite

text \<open>
  Permission objects are referred to by number. A subscriber is a function of the new
  state. The repository subscribes three closures:
  \<^verbatim>\<open>(state) => permission.setRead(state)\<close> and
  \<^verbatim>\<open>(state) => permission.setReadwrite(state)\<close> for a child permission
  (\<^verbatim>\<open>findOrCreatePermission\<close>), and the closure of a
  \<^verbatim>\<open>FileSystemPermissionStatus\<close> that dispatches its \<^verbatim>\<open>change\<close> event. Any
  other subscriber is \<open>CallOther f\<close>, given by the setter calls \<open>f state\<close> it makes,
  in order, on permission objects when it is called with \<open>state\<close> (what else such a
  function may do is outside the model).
\<close>

type_synonym pref = nat

datatype setterCall = SetRead PermissionState | SetReadwrite PermissionState

datatype callback =
    CallSetRead pref
  | CallSetReadwrite pref
  | DispatchChange nat
  | CallOther "PermissionState \<Rightarrow> (pref \<times> setterCall) list"

record Permission =
  read :: PermissionState
  readwrite :: PermissionState
  subscribers :: "FileSystemPermissionMode \<Rightarrow> callback list"

text \<open>
  The store of permission objects; \<open>dispatched\<close> lists, in order, the status objects
  whose \<^verbatim>\<open>change\<close> event was dispatched.
\<close>

record PermissionObjects =
  permissionOf :: "pref \<Rightarrow> Permission"
  nextPermission :: pref
  nextStatus :: nat
  dispatched :: "nat list"

definition newPermission ::
  "PermissionObjects \<Rightarrow> PermissionState \<Rightarrow> PermissionState \<Rightarrow> pref \<times> PermissionObjects" where
  "newPermission st r rw =
     (nextPermission st,
      st\<lparr>permissionOf := (permissionOf st)
             (nextPermission st := \<lparr>read = r, readwrite = rw, subscribers = (\<lambda>_. [])\<rparr>),
         nextPermission := Suc (nextPermission st)\<rparr>)"

definition getRead :: "PermissionObjects \<Rightarrow> pref \<Rightarrow> PermissionState" where
  "getRead st p = read (permissionOf st p)"

definition getReadwrite :: "PermissionObjects \<Rightarrow> pref \<Rightarrow> PermissionState" where
  "getReadwrite st p = readwrite (permissionOf st p)"

definition get :: "PermissionObjects \<Rightarrow> pref \<Rightarrow> FileSystemPermissionMode \<Rightarrow> PermissionState" where
  "get st p mode = (if mode = ModeReadwrite then getReadwrite st p else getRead st p)"

definition subscribe ::
  "PermissionObjects \<Rightarrow> pref \<Rightarrow> FileSystemPermissionMode \<Rightarrow> callback \<Rightarrow> PermissionObjects" where
  "subscribe st p mode cb =
     st\<lparr>permissionOf := (permissionOf st)
            (p := (permissionOf st p)
               \<lparr>subscribers := (subscribers (permissionOf st p))
                    (mode := subscribers (permissionOf st p) mode @ [cb])\<rparr>)\<rparr>"

text \<open>\<^verbatim>\<open>unsubscribe\<close> removes the first occurrence of the callback.\<close>

definition unsubscribe ::
  "PermissionObjects \<Rightarrow> pref \<Rightarrow> FileSystemPermissionMode \<Rightarrow> callback \<Rightarrow> PermissionObjects" where
  "unsubscribe st p mode cb =
     st\<lparr>permissionOf := (permissionOf st)
            (p := (permissionOf st p)
               \<lparr>subscribers := (subscribers (permissionOf st p))
                    (mode := remove1 cb (subscribers (permissionOf st p) mode))\<rparr>)\<rparr>"

text \<open>
  The setters notify the subscribers, and a subscriber may call a setter of another
  permission, which notifies in turn. The calls are counted: the first argument is the number
  of nested and successive calls allowed, and \<open>None\<close> means that this number did not
  suffice.
\<close>

fun setRead :: "nat \<Rightarrow> PermissionObjects \<Rightarrow> pref \<Rightarrow> PermissionState \<Rightarrow> PermissionObjects option"
  and setReadwrite :: "nat \<Rightarrow> PermissionObjects \<Rightarrow> pref \<Rightarrow> PermissionState \<Rightarrow> PermissionObjects option"
  and notify :: "nat \<Rightarrow> PermissionObjects \<Rightarrow> callback list \<Rightarrow> PermissionState \<Rightarrow> PermissionObjects option"
  and runCalls :: "nat \<Rightarrow> PermissionObjects \<Rightarrow> (pref \<times> setterCall) list \<Rightarrow> PermissionObjects option"
where
  "setRead 0 st p newState = None"
| "setRead (Suc n) st p newState =
     (let oldState = read (permissionOf st p);
          st1 = st\<lparr>permissionOf := (permissionOf st)(p := (permissionOf st p)\<lparr>read := newState\<rparr>)\<rparr>
      in case (if oldState \<noteq> newState
               then notify n st1 (subscribers (permissionOf st1 p) ModeRead) newState
               else Some st1) of
           None \<Rightarrow> None
         | Some st2 \<Rightarrow> if newState \<noteq> Granted then setReadwrite n st2 p newState else Some st2)"
| "setReadwrite 0 st p newState = None"
| "setReadwrite (Suc n) st p newState =
     (case (if newState = Granted then setRead n st p newState else Some st) of
        None \<Rightarrow> None
      | Some st1 \<Rightarrow>
          (let oldState = readwrite (permissionOf st1 p);
               st2 = st1\<lparr>permissionOf := (permissionOf st1)
                           (p := (permissionOf st1 p)\<lparr>readwrite := newState\<rparr>)\<rparr>
           in if oldState \<noteq> newState
              then notify n st2 (subscribers (permissionOf st2 p) ModeReadwrite) newState
              else Some st2))"
| "notify 0 st callbacks newState = None"
| "notify (Suc n) st [] newState = Some st"
| "notify (Suc n) st (cb # callbacks) newState =
     (case (case cb of
              CallSetRead q \<Rightarrow> setRead n st q newState
            | CallSetReadwrite q \<Rightarrow> setReadwrite n st q newState
            | DispatchChange i \<Rightarrow> Some (st\<lparr>dispatched := dispatched st @ [i]\<rparr>)
            | CallOther f \<Rightarrow> runCalls n st (f newState)) of
        None \<Rightarrow> None
      | Some st1 \<Rightarrow> notify n st1 callbacks newState)"
| "runCalls 0 st calls = None"
| "runCalls (Suc n) st [] = Some st"
| "runCalls (Suc n) st ((q, c) # calls) =
     (case (case c of
              SetRead s \<Rightarrow> setRead n st q s
            | SetReadwrite s \<Rightarrow> setReadwrite n st q s) of
        None \<Rightarrow> None
      | Some st1 \<Rightarrow> runCalls n st1 calls)"

definition set' ::
  "nat \<Rightarrow> PermissionObjects \<Rightarrow> pref \<Rightarrow> FileSystemPermissionMode \<Rightarrow> PermissionState
     \<Rightarrow> PermissionObjects option" where
  "set' n st p mode newState =
     (if mode = ModeReadwrite then setReadwrite n st p newState else setRead n st p newState)"

section \<open>PermissionsManager (permissions/PermissionsManager.ts)\<close>

text \<open>
  The provider's \<^verbatim>\<open>initial(fs, path)\<close> returns the literal
  \<^verbatim>\<open>{read, readwrite}\<close>, here a pair; \<^verbatim>\<open>prompt(mode, fs, path)\<close> returns the
  resolved state.
\<close>

type_synonym PermissionsLiteral = "PermissionState \<times> PermissionState"

type_synonym PromptPermissionProvider =
  "FileSystemPermissionMode \<Rightarrow> FileSystem \<Rightarrow> string \<Rightarrow> PermissionState"

record PermissionsProvider =
  initial :: "FileSystem \<Rightarrow> string \<Rightarrow> PermissionsLiteral"
  prompt :: PromptPermissionProvider

definition DefaultPermissionsProvider ::
  "PermissionState \<Rightarrow> PermissionState \<Rightarrow> PermissionState \<Rightarrow> PermissionsProvider" where
  "DefaultPermissionsProvider r rw resolveTo =
     \<lparr>initial = (\<lambda>fs path. (r, rw)), prompt = (\<lambda>mode fs path. resolveTo)\<rparr>"

record PermissionsManager =
  permissions :: "(string \<times> pref) list"
  promptPermissionProvider :: "PromptPermissionProvider option"
  permissionsProvider :: PermissionsProvider
  objects :: PermissionObjects

definition newPermissionsManager :: "PermissionsProvider \<Rightarrow> PermissionsManager" where
  "newPermissionsManager provider =
     \<lparr>permissions = [], promptPermissionProvider = None, permissionsProvider = provider,
      objects = \<lparr>permissionOf = (\<lambda>_. \<lparr>read = Prompt, readwrite = Prompt, subscribers = (\<lambda>_. [])\<rparr>),
                 nextPermission = 0, nextStatus = 0, dispatched = []\<rparr>\<rparr>"

text \<open>
  \<^verbatim>\<open>findOrCreatePermission\<close> calls itself on the parent path. The first argument is
  the number of calls allowed to each setter (see \<^const>\<open>setRead\<close>).
\<close>

function findOrCreatePermission ::
  "nat \<Rightarrow> FileSystem \<Rightarrow> PermissionsManager \<Rightarrow> string \<Rightarrow> (pref \<times> PermissionsManager) option" where
  "findOrCreatePermission n fs m path =
     (case map_of (permissions m) path of
        Some permission \<Rightarrow> Some (permission, m)
      | None \<Rightarrow>
          (let (r, rw) = initial (permissionsProvider m) fs path;
               (permission, created) = newPermission (objects m) r rw;
               m1 = m\<lparr>objects := created\<rparr>
           in if length path \<noteq> 0 then
                (case dirname path of
                   None \<Rightarrow> Some (permission, m1\<lparr>permissions := AList.update path permission (permissions m1)\<rparr>)
                 | Some parentPath \<Rightarrow>
                     (case findOrCreatePermission n fs m1 parentPath of
                        None \<Rightarrow> None
                      | Some (parentPermission, m2) \<Rightarrow>
                          (case setRead n (objects m2) permission (getRead (objects m2) parentPermission) of
                             None \<Rightarrow> None
                           | Some o3 \<Rightarrow>
                               (case setReadwrite n o3 permission (getReadwrite o3 parentPermission) of
                                  None \<Rightarrow> None
                                | Some o4 \<Rightarrow>
                                    (let o5 = subscribe o4 parentPermission ModeRead (CallSetRead permission);
                                         o6 = subscribe o5 parentPermission ModeReadwrite
                                                (CallSetReadwrite permission);
                                         m3 = m2\<lparr>objects := o6\<rparr>
                                     in Some (permission,
                                              m3\<lparr>permissions := AList.update path permission (permissions m3)\<rparr>))))))
              else Some (permission, m1\<lparr>permissions := AList.update path permission (permissions m1)\<rparr>)))"
  by pat_completeness auto
termination
  by (relation "measure (\<lambda>(n, fs, m, path). length (pathSegments path))")
     (auto simp: dirname_shorter)

declare findOrCreatePermission.simps [simp del]

definition ensureIsValidPath :: "FileSystem \<Rightarrow> string \<Rightarrow> unit result" where
  "ensureIsValidPath fs path =
     (if \<not> exists fs path then Inl (TypeError (''Path '' @ path @ '' doesn't exist in file system''))
      else Inr ())"

text \<open>
  The mode arrives as a string; \<^verbatim>\<open>ensureIsValidMode\<close> lets \<^verbatim>\<open>"read"\<close> and
  \<^verbatim>\<open>"readwrite"\<close> through.
\<close>

definition ensureIsValidMode :: "string \<Rightarrow> unit result" where
  "ensureIsValidMode mode =
     (if mode \<noteq> ''read'' \<and> mode \<noteq> ''readwrite'' then Inl (TypeError ''Invalid mode.'') else Inr ())"

definition modeOf :: "string \<Rightarrow> FileSystemPermissionMode" where
  "modeOf mode = (if mode = ''readwrite'' then ModeReadwrite else ModeRead)"

definition getPermission ::
  "nat \<Rightarrow> FileSystem \<Rightarrow> PermissionsManager \<Rightarrow> string \<Rightarrow> (pref result \<times> PermissionsManager) option" where
  "getPermission n fs m path =
     (case ensureIsValidPath fs path of
        Inl e \<Rightarrow> Some (Inl e, m)
      | Inr _ \<Rightarrow>
          (case findOrCreatePermission n fs m path of
             None \<Rightarrow> None
           | Some (permission, m1) \<Rightarrow> Some (Inr permission, m1)))"

definition getState ::
  "nat \<Rightarrow> FileSystem \<Rightarrow> PermissionsManager \<Rightarrow> string \<Rightarrow> string
     \<Rightarrow> (PermissionState result \<times> PermissionsManager) option" where
  "getState n fs m path mode =
     (case ensureIsValidMode mode of
        Inl e \<Rightarrow> Some (Inl e, m)
      | Inr _ \<Rightarrow>
          (case getPermission n fs m path of
             None \<Rightarrow> None
           | Some (Inl e, m1) \<Rightarrow> Some (Inl e, m1)
           | Some (Inr permission, m1) \<Rightarrow> Some (Inr (get (objects m1) permission (modeOf mode)), m1)))"

definition setState ::
  "nat \<Rightarrow> FileSystem \<Rightarrow> PermissionsManager \<Rightarrow> string \<Rightarrow> string \<Rightarrow> PermissionState
     \<Rightarrow> (unit result \<times> PermissionsManager) option" where
  "setState n fs m path mode newState =
     (case ensureIsValidMode mode of
        Inl e \<Rightarrow> Some (Inl e, m)
      | Inr _ \<Rightarrow>
          (case getPermission n fs m path of
             None \<Rightarrow> None
           | Some (Inl e, m1) \<Rightarrow> Some (Inl e, m1)
           | Some (Inr permission, m1) \<Rightarrow>
               (case set' n (objects m1) permission (modeOf mode) newState of
                  None \<Rightarrow> None
                | Some changed \<Rightarrow> Some (Inr (), m1\<lparr>objects := changed\<rparr>))))"

text \<open>
  A \<^verbatim>\<open>FileSystemPermissionStatus\<close> subscribes to its permission when it is
  constructed; its \<^verbatim>\<open>state\<close> getter reads the permission.
\<close>

record FileSystemPermissionStatus =
  statusId :: nat
  statusPermission :: pref
  statusMode :: FileSystemPermissionMode

definition newFileSystemPermissionStatus ::
  "PermissionObjects \<Rightarrow> pref \<Rightarrow> FileSystemPermissionMode
     \<Rightarrow> FileSystemPermissionStatus \<times> PermissionObjects" where
  "newFileSystemPermissionStatus st permission mode =
     (\<lparr>statusId = nextStatus st, statusPermission = permission, statusMode = mode\<rparr>,
      (subscribe st permission mode (DispatchChange (nextStatus st)))\<lparr>nextStatus := Suc (nextStatus st)\<rparr>)"

definition statusState :: "PermissionObjects \<Rightarrow> FileSystemPermissionStatus \<Rightarrow> PermissionState" where
  "statusState st status =
     (if statusMode status = ModeReadwrite then getReadwrite st (statusPermission status)
      else getRead st (statusPermission status))"

definition getStatus ::
  "nat \<Rightarrow> FileSystem \<Rightarrow> PermissionsManager \<Rightarrow> string \<Rightarrow> string
     \<Rightarrow> (FileSystemPermissionStatus result \<times> PermissionsManager) option" where
  "getStatus n fs m path mode =
     (case ensureIsValidMode mode of
        Inl e \<Rightarrow> Some (Inl e, m)
      | Inr _ \<Rightarrow>
          (case getPermission n fs m path of
             None \<Rightarrow> None
           | Some (Inl e, m1) \<Rightarrow> Some (Inl e, m1)
           | Some (Inr permission, m1) \<Rightarrow>
               (let (status, subscribed) = newFileSystemPermissionStatus (objects m1) permission (modeOf mode)
                in Some (Inr status, m1\<lparr>objects := subscribed\<rparr>))))"

definition duplicate ::
  "nat \<Rightarrow> FileSystem \<Rightarrow> PermissionsManager \<Rightarrow> string \<Rightarrow> string
     \<Rightarrow> (unit result \<times> PermissionsManager) option" where
  "duplicate n fs m from to =
     (case getPermission n fs m from of
        None \<Rightarrow> None
      | Some (Inl e, m1) \<Rightarrow> Some (Inl e, m1)
      | Some (Inr sourcePermission, m1) \<Rightarrow>
          (case getPermission n fs m1 to of
             None \<Rightarrow> None
           | Some (Inl e, m2) \<Rightarrow> Some (Inl e, m2)
           | Some (Inr destinationPermission, m2) \<Rightarrow>
               (case setRead n (objects m2) destinationPermission (getRead (objects m2) sourcePermission) of
                  None \<Rightarrow> None
                | Some o3 \<Rightarrow>
                    (case setReadwrite n o3 destinationPermission (getReadwrite o3 sourcePermission) of
                       None \<Rightarrow> None
                     | Some o4 \<Rightarrow> Some (Inr (), m2\<lparr>objects := o4\<rparr>)))))"

section \<open>WritableFileStreamSink (file-system-access-api/WritableFileStreamSink.ts)\<close>

text \<open>
  The values a command carries. A \<^verbatim>\<open>size\<close> or \<^verbatim>\<open>position\<close> is compared with
  \<^verbatim>\<open>undefined\<close> and \<^verbatim>\<open>null\<close> and passed to \<^verbatim>\<open>Number\<close>, so it is modelled by
  what \<^verbatim>\<open>Number\<close> makes of it: \<^verbatim>\<open>NaN\<close> or an integer (fractions and the
  infinities are outside the model). The \<^verbatim>\<open>data\<close> of a write is a blob, a string, a
  buffer or a view on one (all three given by their bytes), or any other value, given by its
  display string \<^verbatim>\<open>String(data)\<close>.
\<close>

datatype jsnumber = NaN | Finite int

datatype unknown = Undefined | Null | Value jsnumber

fun Number :: "unknown \<Rightarrow> jsnumber" where
  "Number Undefined = NaN"
| "Number Null = Finite 0"
| "Number (Value k) = k"

datatype payload =
    NoData
  | NullData
  | Blob ArrayBuffer
  | Text string
  | BufferSource ArrayBuffer
  | OtherValue string

text \<open>
  \<^verbatim>\<open>WriteParams\<close>: \<open>position = None\<close> is a command without the key
  \<^verbatim>\<open>position\<close>; a missing \<^verbatim>\<open>size\<close> or \<^verbatim>\<open>data\<close> reads as
  \<^verbatim>\<open>undefined\<close>.
\<close>

record WriteParams =
  commandType :: string
  data :: payload
  position :: "unknown option"
  size_arg :: unknown

datatype chunk = ChunkBlob ArrayBuffer | ChunkText string | ChunkParams WriteParams | ChunkBuffer ArrayBuffer

text \<open>
  The sink owns its handle. \<open>sinkError\<close> is the remembered error, \<open>None\<close> when the
  field is \<^verbatim>\<open>undefined\<close> (or holds a falsy abort reason, which the checks treat alike).
\<close>

record WritableFileStreamSink =
  sinkCursor :: nat
  fileSize :: nat
  isClosed :: bool
  sinkError :: "error option"
  syncAccessHandle :: SyncAccessHandle
  sinkDescriptor :: ref

record World =
  fileSystem :: FileSystem
  permissionsManager :: PermissionsManager

definition newWritableFileStreamSink :: "SyncAccessHandle \<Rightarrow> ref \<Rightarrow> WritableFileStreamSink result" where
  "newWritableFileStreamSink handle d =
     (case getSize handle of
        Inl e \<Rightarrow> Inl e
      | Inr n \<Rightarrow> Inr \<lparr>sinkCursor = 0, fileSize = n, isClosed = False, sinkError = None,
                       syncAccessHandle = handle, sinkDescriptor = d\<rparr>)"

text \<open>\<^verbatim>\<open>TextEncoder.encode\<close>: a string of the model is its UTF-8 bytes.\<close>

definition encode :: "string \<Rightarrow> ArrayBuffer" where
  "encode text = map (\<lambda>c. of_nat (of_char c)) text"

definition convertToWriteParams :: "chunk \<Rightarrow> WriteParams" where
  "convertToWriteParams c =
     (case c of
        ChunkBlob b \<Rightarrow> \<lparr>commandType = ''write'', data = Blob b, position = None, size_arg = Undefined\<rparr>
      | ChunkText t \<Rightarrow> \<lparr>commandType = ''write'', data = Text t, position = None, size_arg = Undefined\<rparr>
      | ChunkParams params \<Rightarrow> params
      | ChunkBuffer b \<Rightarrow>
          \<lparr>commandType = ''write'', data = BufferSource b, position = None, size_arg = Undefined\<rparr>)"

definition convertToArrayBuffer :: "payload \<Rightarrow> ArrayBuffer" where
  "convertToArrayBuffer d =
     (case d of
        Blob b \<Rightarrow> b
      | Text t \<Rightarrow> encode t
      | BufferSource b \<Rightarrow> b
      | OtherValue shown \<Rightarrow> encode shown
      | NoData \<Rightarrow> encode ''undefined''
      | NullData \<Rightarrow> encode ''null'')"

definition prepareTruncateSize :: "unknown \<Rightarrow> int" where
  "prepareTruncateSize v = (case Number v of NaN \<Rightarrow> 0 | Finite numSize \<Rightarrow> max 0 numSize)"

definition prepareSeekPosition :: "unknown \<Rightarrow> int" where
  "prepareSeekPosition v = prepareTruncateSize v"

definition throwInvalidParams :: "string \<Rightarrow> string \<Rightarrow> error" where
  "throwInvalidParams commandName argName =
     TypeError (''Failed to execute 'write' on 'UnderlyingSinkBase': Invalid params passed. ''
                @ commandName @ '' requires a '' @ argName @ '' argument'')"

definition validateWriteCommand :: "WriteParams \<Rightarrow> unit result" where
  "validateWriteCommand command =
     (if commandType command = ''write'' then
        (if data command = NoData \<or> data command = NullData
         then Inl (throwInvalidParams ''write'' ''data'') else Inr ())
      else if commandType command = ''truncate'' then
        (if size_arg command = Undefined \<or> size_arg command = Null
         then Inl (throwInvalidParams ''truncate'' ''size'') else Inr ())
      else if commandType command = ''seek'' then
        (if position command = None \<or> position command = Some Undefined \<or> position command = Some Null
         then Inl (throwInvalidParams ''seek'' ''position'') else Inr ())
      else Inl (TypeError (''Failed to execute 'write' on 'FileSystemWritableFileStream': ''
                @ ''Failed to read the 'type' property from 'WriteParams': The provided value ''
                @ commandType command @ '' is not a valid enum value of type WriteCommandType.'')))"

definition sinkEnsureNotClosed :: "WritableFileStreamSink \<Rightarrow> string \<Rightarrow> unit result" where
  "sinkEnsureNotClosed sink message = (if isClosed sink then Inl (TypeError message) else Inr ())"

definition ensureNotInErrorState :: "WritableFileStreamSink \<Rightarrow> unit result" where
  "ensureNotInErrorState sink = (case sinkError sink of Some e \<Rightarrow> Inl e | None \<Rightarrow> Inr ())"

definition notAllowedError :: error where
  "notAllowedError = DOMException
     ''The request is not allowed by the user agent or the platform in the current context.''
     ''NotAllowedError''"

text \<open>
  \<^verbatim>\<open>ensureHasWritePermission\<close> asks the manager for a status object, which may create
  permissions and subscribes the status. The first argument is the number of calls allowed
  to the permission setters.
\<close>

definition ensureHasWritePermission ::
  "nat \<Rightarrow> World \<Rightarrow> WritableFileStreamSink \<Rightarrow> (unit result \<times> World) option" where
  "ensureHasWritePermission n w sink =
     (case getStatus n (fileSystem w) (permissionsManager w)
             (fullPath (heap (fileSystem w) (sinkDescriptor sink))) ''readwrite'' of
        None \<Rightarrow> None
      | Some (Inl e, pm) \<Rightarrow> Some (Inl e, w\<lparr>permissionsManager := pm\<rparr>)
      | Some (Inr status, pm) \<Rightarrow>
          if statusState (objects pm) status \<noteq> Granted
          then Some (Inl notAllowedError, w\<lparr>permissionsManager := pm\<rparr>)
          else Some (Inr (), w\<lparr>permissionsManager := pm\<rparr>))"

definition doSeek :: "WritableFileStreamSink \<Rightarrow> int \<Rightarrow> WritableFileStreamSink" where
  "doSeek sink pos = sink\<lparr>sinkCursor := nat pos\<rparr>"

definition doTruncate ::
  "World \<Rightarrow> WritableFileStreamSink \<Rightarrow> int \<Rightarrow> unit result \<times> WritableFileStreamSink" where
  "doTruncate w sink newSize =
     (case sah_truncate (fileSystem w) (syncAccessHandle sink) newSize of
        (Inl e, h) \<Rightarrow> (Inl e, sink\<lparr>syncAccessHandle := h\<rparr>)
      | (Inr _, h) \<Rightarrow>
          (let sink1 = sink\<lparr>syncAccessHandle := h\<rparr>;
               sink2 = (if newSize < int (sinkCursor sink1) then sink1\<lparr>sinkCursor := nat newSize\<rparr> else sink1)
           in (Inr (), sink2\<lparr>fileSize := nat newSize\<rparr>)))"

definition doWrite ::
  "World \<Rightarrow> WritableFileStreamSink \<Rightarrow> payload \<Rightarrow> int option \<Rightarrow> unit result \<times> WritableFileStreamSink" where
  "doWrite w sink d positionOption =
     (let pos = (case positionOption of None \<Rightarrow> int (sinkCursor sink) | Some v \<Rightarrow> v);
          buffer = convertToArrayBuffer d
      in case (if int (length buffer) + pos > int (fileSize sink)
               then doTruncate w sink (int (length buffer) + pos) else (Inr (), sink)) of
           (Inl e, sink1) \<Rightarrow> (Inl e, sink1)
         | (Inr _, sink1) \<Rightarrow>
             (case sah_write (fileSystem w) (syncAccessHandle sink1) buffer (Some pos) of
                (Inl e, h) \<Rightarrow> (Inl e, sink1\<lparr>syncAccessHandle := h\<rparr>)
              | (Inr bytesWritten, h) \<Rightarrow>
                  (Inr (), sink1\<lparr>syncAccessHandle := h, sinkCursor := nat (pos + int bytesWritten)\<rparr>)))"

text \<open>
  The part of \<^verbatim>\<open>write\<close> inside \<^verbatim>\<open>try\<close>. What \<^verbatim>\<open>convertToWriteParams\<close>,
  \<^verbatim>\<open>validateWriteCommand\<close>, \<^verbatim>\<open>doSeek\<close> and \<^verbatim>\<open>doTruncate\<close> throw reaches the
  \<^verbatim>\<open>catch\<close> clause, which stores the error and throws it again. \<^verbatim>\<open>doWrite\<close> is an
  \<^verbatim>\<open>async\<close> function: what it throws rejects the promise it returns, and
  \<^verbatim>\<open>return this.doWrite(...)\<close> hands that promise on without awaiting it, so the
  \<^verbatim>\<open>catch\<close> clause does not see it and the error is not stored.
\<close>

definition dispatchCommand ::
  "World \<Rightarrow> WritableFileStreamSink \<Rightarrow> chunk \<Rightarrow> unit result \<times> WritableFileStreamSink" where
  "dispatchCommand w sink c =
     (let writeParams = convertToWriteParams c
      in case validateWriteCommand writeParams of
           Inl e \<Rightarrow> (Inl e, sink\<lparr>sinkError := Some e\<rparr>)
         | Inr _ \<Rightarrow>
             if commandType writeParams = ''write'' then
               doWrite w sink (data writeParams)
                 (case position writeParams of
                    None \<Rightarrow> None
                  | Some v \<Rightarrow> Some (prepareSeekPosition v))
             else if commandType writeParams = ''seek'' then
               (Inr (), doSeek sink (prepareSeekPosition (case position writeParams of
                                                            None \<Rightarrow> Undefined | Some v \<Rightarrow> v)))
             else
               (case doTruncate w sink (prepareTruncateSize (size_arg writeParams)) of
                  (Inl e, sink1) \<Rightarrow> (Inl e, sink1\<lparr>sinkError := Some e\<rparr>)
                | (Inr _, sink1) \<Rightarrow> (Inr (), sink1)))"

definition sink_write ::
  "nat \<Rightarrow> World \<Rightarrow> WritableFileStreamSink \<Rightarrow> chunk
     \<Rightarrow> (unit result \<times> WritableFileStreamSink \<times> World) option" where
  "sink_write n w sink c =
     (case ensureNotInErrorState sink of
        Inl e \<Rightarrow> Some (Inl e, sink, w)
      | Inr _ \<Rightarrow>
          (case sinkEnsureNotClosed sink ''Cannot write to a CLOSED writable stream'' of
             Inl e \<Rightarrow> Some (Inl e, sink, w)
           | Inr _ \<Rightarrow>
               (case ensureHasWritePermission n w sink of
                  None \<Rightarrow> None
                | Some (Inl e, w1) \<Rightarrow> Some (Inl e, sink, w1)
                | Some (Inr _, w1) \<Rightarrow>
                    (case dispatchCommand w1 sink c of
                       (r, sink1) \<Rightarrow> Some (r, sink1, w1)))))"

text \<open>\<^verbatim>\<open>close()\<close>; \<open>now\<close> is the value of \<^verbatim>\<open>Date.now()\<close> in the flush.\<close>

definition sink_close ::
  "nat \<Rightarrow> World \<Rightarrow> WritableFileStreamSink \<Rightarrow> nat
     \<Rightarrow> (unit result \<times> WritableFileStreamSink \<times> World) option" where
  "sink_close n w sink now =
     (case sinkEnsureNotClosed sink ''Cannot close a CLOSED writable stream'' of
        Inl e \<Rightarrow> Some (Inl e, sink, w)
      | Inr _ \<Rightarrow>
          (case ensureHasWritePermission n w sink of
             None \<Rightarrow> None
           | Some (Inl e, w1) \<Rightarrow> Some (Inl e, sink, w1)
           | Some (Inr _, w1) \<Rightarrow>
               if sinkError sink \<noteq> None then
                 Some (Inl (TypeError ''Cannot close a ERRORED writable stream''), sink, w1)
               else
                 (let sink1 = sink\<lparr>isClosed := True\<rparr>
                  in case flush (fileSystem w1) (syncAccessHandle sink1) now of
                       (Inl e, fs) \<Rightarrow> Some (Inl e, sink1, w1\<lparr>fileSystem := fs\<rparr>)
                     | (Inr _, fs) \<Rightarrow>
                         Some (Inr (), sink1\<lparr>syncAccessHandle := close (syncAccessHandle sink1)\<rparr>,
                               w1\<lparr>fileSystem := fs\<rparr>))))"

definition abort :: "WritableFileStreamSink \<Rightarrow> error option \<Rightarrow> WritableFileStreamSink" where
  "abort sink reason = sink\<lparr>syncAccessHandle := close (syncAccessHandle sink), sinkError := reason\<rparr>"

section \<open>What the buffer utilities compute\<close>

lemma copyArrayBuffer_default:
  "length source \<le> length destination \<Longrightarrow>
   copyArrayBuffer source destination noOptions
     = Inr (length source, source @ drop (length source) destination)"
  by (simp add: copyArrayBuffer_def noOptions_def typedArraySet_def Let_def)

lemma copyArrayBuffer_at_end:
  "length destination = n + length source \<Longrightarrow>
   copyArrayBuffer source destination (noOptions\<lparr>destinationOffset := Some (int n)\<rparr>)
     = Inr (length source, take n destination @ source)"
  by (simp add: copyArrayBuffer_def noOptions_def typedArraySet_def Let_def)

lemma concatStep_Inr: "concatStep (Inr a) b = Inr (a @ b)"
  by (simp add: concatStep_def Let_def newArrayBuffer_def copyArrayBuffer_default
      copyArrayBuffer_at_end)

lemma foldl_concatStep: "foldl concatStep (Inr a) bs = Inr (a @ concat bs)"
  by (induction bs arbitrary: a) (simp_all add: concatStep_Inr)

lemma concatArrayBuffers_eq: "concatArrayBuffers bs = Inr (concat bs)"
  by (simp add: concatArrayBuffers_def foldl_concatStep newArrayBuffer_def)

lemma appendNullBytes_eq: "appendNullBytes b n = Inr (b @ replicate n 0)"
  by (simp add: appendNullBytes_def concatArrayBuffers_eq)

lemma typedArraySlice_prefix: "0 \<le> k \<Longrightarrow> typedArraySlice xs 0 k = take (nat k) xs"
  by (simp add: typedArraySlice_def relativeIndex_def Let_def min_def)

lemma typedArraySlice_suffix:
  "k \<le> length xs \<Longrightarrow>
   typedArraySlice xs (int (length xs) - int k) (int (length xs)) = drop (length xs - k) xs"
  by (auto simp add: typedArraySlice_def relativeIndex_def Let_def min_def max_def nat_diff_distrib)

lemma copyArrayBuffer_shrink:
  "0 \<le> n \<Longrightarrow> nat n \<le> length source \<Longrightarrow>
   copyArrayBuffer source (newArrayBuffer (nat n))
      \<lparr>sourceStartOffset = Some 0, sourceEndOffset = Some n, destinationOffset = None\<rparr>
    = Inr (nat n, take (nat n) source)"
  by (auto simp add: copyArrayBuffer_def typedArraySet_def Let_def newArrayBuffer_def
      typedArraySlice_prefix)

section \<open>Buffers of a whole length\<close>

lemma truncated_of_int [simp]: "truncated (of_int k) = k"
  by (simp add: truncated_def)

lemma truncated_of_nat [simp]: "truncated (of_nat n) = int n"
  using truncated_of_int [of "int n"] by simp

lemma truncated_numeral [simp]: "truncated 0 = 0" "truncated 1 = 1" "truncated (numeral k) = numeral k"
  using truncated_of_int [of 0] truncated_of_int [of 1] truncated_of_int [of "numeral k"]
  by simp_all

lemma newArrayBufferOf_Num:
  "newArrayBufferOf (Num k) =
     (if k < 0 \<or> k > 2 ^ 53 - 1 then Inl (RangeError ''Invalid array buffer length'')
      else Inr (newArrayBuffer (nat k)))"
  by (simp add: newArrayBufferOf_def)

lemma newArrayBufferOf_zero [simp]: "newArrayBufferOf (Rational 0) = Inr []"
  by (simp add: newArrayBufferOf_def newArrayBuffer_def)

section \<open>What truncate and write do to an open handle\<close>

text \<open>The room the quota check of a handle compares a length with.\<close>

definition availableRoom :: "FileSystem \<Rightarrow> SyncAccessHandle \<Rightarrow> number" where
  "availableRoom fs h =
     plus_number (getFreeDiskSpace fs) (size_bytes (heap fs (fileDescriptor h)))"

definition quotaExceeded :: error where
  "quotaExceeded = DOMException ''Not enough free space'' ''QuotaExceededError''"

lemma ensureHasFreeMemory_eq:
  "ensureHasFreeMemory fs h n =
     (if gt_number (Num (int n)) (availableRoom fs h) then Inl quotaExceeded else Inr ())"
  by (simp add: ensureHasFreeMemory_def availableRoom_def quotaExceeded_def Let_def)

lemma availableRoom_tempFile [simp]:
  "availableRoom fs (h\<lparr>tempFile := b\<rparr>) = availableRoom fs h"
  by (simp add: availableRoom_def)

lemma ensureHasFreeMemory_tempFile [simp]:
  "ensureHasFreeMemory fs (h\<lparr>tempFile := b\<rparr>) n = ensureHasFreeMemory fs h n"
  by (simp add: ensureHasFreeMemory_def)

lemma sah_truncate_open:
  assumes "state h = Open" and "0 \<le> n" and "\<not> gt_number (Num n) (availableRoom fs h)"
  shows "sah_truncate fs h n =
           (Inr (), h\<lparr>tempFile := take (nat n) (tempFile h) @ replicate (nat n - length (tempFile h)) 0,
                      cursor := min (cursor h) (nat n)\<rparr>)"
proof (cases "nat n > length (tempFile h)")
  case True
  with assms show ?thesis
    by (simp add: sah_truncate_def ensureNotClosed_def ensureHasFreeMemory_eq appendNullBytes_eq
        Let_def min_def)
next
  case False
  with assms show ?thesis
    by (simp add: sah_truncate_def ensureNotClosed_def ensureHasFreeMemory_eq copyArrayBuffer_shrink
        Let_def min_def)
qed

text \<open>The length of the buffer a write asks for: the old length, or the end of the written region.\<close>

definition lengthAfterWrite :: "SyncAccessHandle \<Rightarrow> nat \<Rightarrow> nat \<Rightarrow> nat" where
  "lengthAfterWrite h writePosition bufferSize = max (length (tempFile h)) (writePosition + bufferSize)"

definition writePositionOf :: "SyncAccessHandle \<Rightarrow> int option \<Rightarrow> int" where
  "writePositionOf h atOption = (case atOption of None \<Rightarrow> int (cursor h) | Some a \<Rightarrow> a)"

lemma sah_write_unfold:
  assumes "state h = Open" and "0 \<le> writePositionOf h atOption"
  shows "sah_write fs h b atOption =
     (let p = nat (writePositionOf h atOption);
          padded = tempFile h @ replicate (p - length (tempFile h)) 0
      in if gt_number (Num (int (lengthAfterWrite h p (length b)))) (availableRoom fs h)
         then (Inl quotaExceeded, h\<lparr>tempFile := padded\<rparr>)
         else (Inr (length b),
               h\<lparr>tempFile := take p padded @ b @ drop (p + length b) (tempFile h),
                  cursor := p + length b\<rparr>))"
proof -
  define p where "p = nat (writePositionOf h atOption)"
  have pos: "writePositionOf h atOption = int p" "\<not> int p < 0"
    using assms by (simp_all add: p_def)
  show ?thesis
  proof (cases "p > length (tempFile h)")
    case True
    then have len: "lengthAfterWrite h p (length b) = p + length b"
      by (simp add: lengthAfterWrite_def)
    from True show ?thesis
      unfolding sah_write_def writePositionOf_def [symmetric] pos Let_def
      using assms(1)
      by (simp add: ensureNotClosed_def appendNullBytes_eq typedArraySlice_prefix
          ensureHasFreeMemory_eq concatArrayBuffers_eq len p_def [symmetric] pos)
  next
    case False
    then have pad: "tempFile h @ replicate (p - length (tempFile h)) 0 = tempFile h"
      by simp
    have unchanged: "h\<lparr>tempFile := tempFile h\<rparr> = h"
      by simp
    show ?thesis
    proof (cases "p + length b < length (tempFile h)")
      case True
      then have len: "lengthAfterWrite h p (length b) = length (tempFile h)"
        by (simp add: lengthAfterWrite_def)
      have tail: "typedArraySlice (tempFile h)
                    (int (length (tempFile h)) - int (length (tempFile h) - (p + length b)))
                    (int (length (tempFile h))) = drop (p + length b) (tempFile h)"
        using True typedArraySlice_suffix [of "length (tempFile h) - (p + length b)" "tempFile h"]
        by simp
      from True False show ?thesis
        unfolding sah_write_def writePositionOf_def [symmetric] pos Let_def
        using assms(1) tail
        by (simp add: ensureNotClosed_def typedArraySlice_prefix ensureHasFreeMemory_eq
            concatArrayBuffers_eq len p_def [symmetric] pos min_def)
    next
      case nt: False
      then have len: "lengthAfterWrite h p (length b) = p + length b"
        by (simp add: lengthAfterWrite_def)
      from nt False show ?thesis
        unfolding sah_write_def writePositionOf_def [symmetric] pos Let_def
        using assms(1)
        by (simp add: ensureNotClosed_def typedArraySlice_prefix ensureHasFreeMemory_eq
            concatArrayBuffers_eq len p_def [symmetric] pos min_def)
    qed
  qed
qed

section \<open>A file system with one empty file, and a handle on it\<close>

text \<open>
  \<^verbatim>\<open>fs = new FileSystem(d); descriptor = fs.createFile("f")\<close> at time 0, and the
  handle \<^verbatim>\<open>new SyncAccessHandle(descriptor, fs, keepContent)\<close>.
\<close>

definition exampleDisk :: "enat \<Rightarrow> FileSystem" where
  "exampleDisk d = snd (createFile (newFileSystem d) ''f'' None 0)"

definition exampleHandle :: SyncAccessHandle where
  "exampleHandle = \<lparr>tempFile = [], state = Open, cursor = 0, fileDescriptor = 1\<rparr>"

lemma exampleDisk_eq:
  "exampleDisk d =
    \<lparr>registry = [([], 0), (''f'', 1)], disk = [(1, [])], diskSize = d,
      heap = ((\<lambda>_. directoryDescriptor [])
                (1 := \<lparr>type = File, fullPath = ''f'', size_bytes = Num 0, lastModified = Some 0\<rparr>)),
      nextRef = 2\<rparr>"
  by (simp add: exampleDisk_def createFile_def newFileSystem_def exists_def dirname_def
      pathSegments_def newObject_def allocateFile_def newFileDescriptor_def Let_def
      getFreeDiskSpace_def getUsedDiskSpace_def newArrayBuffer_def isSeparator_def
      split: enat.splits)

lemma exampleHandle_new: "newSyncAccessHandle (exampleDisk d) 1 keep = Inr exampleHandle"
  by (simp add: exampleDisk_eq newSyncAccessHandle_def exampleHandle_def readFile_def
      newArrayBuffer_def copyArrayBuffer_default)

lemma availableRoom_unlimited [simp]:
  "fileDescriptor h = 1 \<Longrightarrow> availableRoom (exampleDisk \<infinity>) h = Infinity"
  by (simp add: availableRoom_def exampleDisk_eq getFreeDiskSpace_def)

lemma gt_number_mono: "a \<le> b \<Longrightarrow> gt_number (Num a) r \<Longrightarrow> gt_number (Num b) r"
  by (cases r) auto

section \<open>Claims about the sync access handle\<close>

text \<open>
  C7. On a handle whose buffer is empty (a handle over a fresh 0-byte file), with room for
  8 bytes, \<^verbatim>\<open>write([1,2,3], {at: 5})\<close> yields the 8 bytes 0,0,0,0,0,1,2,3; then
  \<^verbatim>\<open>truncate(3)\<close> keeps the first three bytes and \<^verbatim>\<open>truncate(8)\<close> yields eight
  zero bytes: the bytes 1,2,3 beyond the shrink boundary do not come back.
\<close>

theorem zero_fill_round_trip:
  assumes "state h = Open" and "tempFile h = []"
    and "\<not> gt_number (Num 8) (availableRoom fs h)"
  shows "let (r1, h1) = sah_write fs h [1, 2, 3] (Some 5);
             (r2, h2) = sah_truncate fs h1 3;
             (r3, h3) = sah_truncate fs h2 8
         in r1 = Inr 3 \<and> tempFile h1 = [0, 0, 0, 0, 0, 1, 2, 3]
          \<and> r2 = Inr () \<and> tempFile h2 = [0, 0, 0]
          \<and> r3 = Inr () \<and> tempFile h3 = [0, 0, 0, 0, 0, 0, 0, 0]"
proof -
  have room3: "\<not> gt_number (Num 3) (availableRoom fs h)"
    using assms(3) gt_number_mono [of 3 8] by auto
  have w: "sah_write fs h [1, 2, 3] (Some 5)
             = (Inr 3, h\<lparr>tempFile := [0, 0, 0, 0, 0, 1, 2, 3], cursor := 8\<rparr>)"
    using assms
    by (simp add: sah_write_unfold writePositionOf_def lengthAfterWrite_def Let_def numeral_eq_Suc)
  have t1: "sah_truncate fs (h\<lparr>tempFile := [0, 0, 0, 0, 0, 1, 2, 3], cursor := 8\<rparr>) 3
              = (Inr (), h\<lparr>tempFile := [0, 0, 0], cursor := 3\<rparr>)"
    using assms room3 by (simp add: sah_truncate_open availableRoom_def numeral_eq_Suc)
  have t2: "sah_truncate fs (h\<lparr>tempFile := [0, 0, 0], cursor := 3\<rparr>) 8
              = (Inr (), h\<lparr>tempFile := [0, 0, 0, 0, 0, 0, 0, 0], cursor := 3\<rparr>)"
    using assms by (simp add: sah_truncate_open availableRoom_def numeral_eq_Suc)
  show ?thesis
    by (simp add: w t1 t2)
qed

theorem zero_fill_round_trip_witness:
  "newSyncAccessHandle (exampleDisk \<infinity>) 1 True = Inr exampleHandle
   \<and> state exampleHandle = Open \<and> tempFile exampleHandle = []
   \<and> \<not> gt_number (Num 8) (availableRoom (exampleDisk \<infinity>) exampleHandle)
   \<and> (let (r1, h1) = sah_write (exampleDisk \<infinity>) exampleHandle [1, 2, 3] (Some 5);
           (r2, h2) = sah_truncate (exampleDisk \<infinity>) h1 3;
           (r3, h3) = sah_truncate (exampleDisk \<infinity>) h2 8
       in r1 = Inr 3 \<and> tempFile h1 = [0, 0, 0, 0, 0, 1, 2, 3]
        \<and> r2 = Inr () \<and> tempFile h2 = [0, 0, 0]
        \<and> r3 = Inr () \<and> tempFile h3 = [0, 0, 0, 0, 0, 0, 0, 0])"
proof -
  have h: "state exampleHandle = Open" "tempFile exampleHandle = []"
    "\<not> gt_number (Num 8) (availableRoom (exampleDisk \<infinity>) exampleHandle)"
    by (simp_all add: exampleHandle_def)
  have new: "newSyncAccessHandle (exampleDisk \<infinity>) 1 True = Inr exampleHandle"
    by (rule exampleHandle_new)
  from zero_fill_round_trip [OF h] h new show ?thesis
    by blast
qed

text \<open>
  C8, as the code has it. A write starts at the cursor when no \<^verbatim>\<open>at\<close> is given and at
  \<^verbatim>\<open>at\<close> otherwise; it leaves the bytes before that position as they were (zero-filled
  where the buffer was shorter), puts the source bytes there, and moves the cursor to the end
  of the written region in both cases. So two writes without \<^verbatim>\<open>at\<close> append one after
  the other, and a write with \<^verbatim>\<open>at\<close> moves the cursor too.
\<close>

theorem write_moves_cursor:
  assumes "state h = Open" and "0 \<le> writePositionOf h atOption"
    and "\<not> gt_number (Num (int (lengthAfterWrite h (nat (writePositionOf h atOption)) (length b))))
             (availableRoom fs h)"
  shows "fst (sah_write fs h b atOption) = Inr (length b)
       \<and> cursor (snd (sah_write fs h b atOption)) = nat (writePositionOf h atOption) + length b
       \<and> take (length b) (drop (nat (writePositionOf h atOption))
            (tempFile (snd (sah_write fs h b atOption)))) = b
       \<and> take (nat (writePositionOf h atOption)) (tempFile (snd (sah_write fs h b atOption)))
           = take (nat (writePositionOf h atOption))
               (tempFile h @ replicate (nat (writePositionOf h atOption) - length (tempFile h)) 0)"
  using assms by (simp add: sah_write_unfold Let_def)

text \<open>
  The handle after \<^verbatim>\<open>write([1,2])\<close>, \<^verbatim>\<open>write([3,4])\<close>, then after
  \<^verbatim>\<open>write([9], {at: 0})\<close>, then after \<^verbatim>\<open>write([5])\<close>.
\<close>

definition c8_h1 :: SyncAccessHandle where
  "c8_h1 = snd (sah_write (exampleDisk \<infinity>) exampleHandle [1, 2] None)"

definition c8_h2 :: SyncAccessHandle where
  "c8_h2 = snd (sah_write (exampleDisk \<infinity>) c8_h1 [3, 4] None)"

definition c8_h3 :: SyncAccessHandle where
  "c8_h3 = snd (sah_write (exampleDisk \<infinity>) c8_h2 [9] (Some 0))"

definition c8_h4 :: SyncAccessHandle where
  "c8_h4 = snd (sah_write (exampleDisk \<infinity>) c8_h3 [5] None)"

lemma c8_h1_eq: "c8_h1 = \<lparr>tempFile = [1, 2], state = Open, cursor = 2, fileDescriptor = 1\<rparr>"
  by (simp add: c8_h1_def sah_write_unfold exampleHandle_def writePositionOf_def Let_def
      lengthAfterWrite_def)

lemma c8_h2_eq: "c8_h2 = \<lparr>tempFile = [1, 2, 3, 4], state = Open, cursor = 4, fileDescriptor = 1\<rparr>"
  by (simp add: c8_h2_def c8_h1_eq sah_write_unfold writePositionOf_def Let_def
      lengthAfterWrite_def)

lemma c8_h3_eq: "c8_h3 = \<lparr>tempFile = [9, 2, 3, 4], state = Open, cursor = 1, fileDescriptor = 1\<rparr>"
  by (simp add: c8_h3_def c8_h2_eq sah_write_unfold writePositionOf_def Let_def
      lengthAfterWrite_def)

lemma c8_h4_eq: "c8_h4 = \<lparr>tempFile = [9, 5, 3, 4], state = Open, cursor = 2, fileDescriptor = 1\<rparr>"
  by (simp add: c8_h4_def c8_h3_eq sah_write_unfold writePositionOf_def Let_def
      lengthAfterWrite_def)

theorem write_moves_cursor_witness:
  "state c8_h2 = Open \<and> 0 \<le> writePositionOf c8_h2 (Some 0)
   \<and> \<not> gt_number (Num (int (lengthAfterWrite c8_h2 (nat (writePositionOf c8_h2 (Some 0))) (length [9::byte]))))
          (availableRoom (exampleDisk \<infinity>) c8_h2)
   \<and> fst (sah_write (exampleDisk \<infinity>) c8_h2 [9] (Some 0)) = Inr 1
   \<and> cursor (snd (sah_write (exampleDisk \<infinity>) c8_h2 [9] (Some 0))) = 1"
proof -
  have h: "state c8_h2 = Open" "0 \<le> writePositionOf c8_h2 (Some 0)"
    "\<not> gt_number (Num (int (lengthAfterWrite c8_h2 (nat (writePositionOf c8_h2 (Some 0))) (length [9::byte]))))
          (availableRoom (exampleDisk \<infinity>) c8_h2)"
    by (simp_all add: c8_h2_eq writePositionOf_def)
  from write_moves_cursor [OF h] h show ?thesis
    by (simp add: writePositionOf_def)
qed

text \<open>
  C8, as the claim states it, fails: after two sequential writes of two bytes the cursor is
  4; \<^verbatim>\<open>write([9], {at: 0})\<close> leaves it at 1, and the next sequential write puts its
  byte at offset 1, not at offset 4.
\<close>

theorem positional_write_moves_cursor_counterexample:
  "cursor c8_h2 = 4 \<and> cursor c8_h3 = 1 \<and> cursor c8_h3 \<noteq> cursor c8_h2
   \<and> tempFile c8_h4 = [9, 5, 3, 4]"
  by (simp add: c8_h2_eq c8_h3_eq c8_h4_eq)

text \<open>
  C4, as the code has it. The quota check of \<^verbatim>\<open>truncate\<close> and \<^verbatim>\<open>write\<close> compares
  the requested length of the buffer with \<^verbatim>\<open>getFreeDiskSpace()\<close> plus the
  \<^verbatim>\<open>size\<close> field the file descriptor has at the time of the call (the persisted size
  as \<^verbatim>\<open>writeFile\<close> last set it), and the call fails with the quota error exactly when
  the handle is open, the position or size is not negative, and the requested length exceeds
  that room.
\<close>

theorem quota_check_uses_current_descriptor_size:
  "(fst (sah_truncate fs h n) = Inl quotaExceeded
      \<longleftrightarrow> state h = Open \<and> 0 \<le> n \<and> gt_number (Num n) (availableRoom fs h))
   \<and> (fst (sah_write fs h b atOption) = Inl quotaExceeded
      \<longleftrightarrow> state h = Open \<and> 0 \<le> writePositionOf h atOption
          \<and> gt_number (Num (int (lengthAfterWrite h (nat (writePositionOf h atOption)) (length b))))
               (availableRoom fs h))"
proof
  show "fst (sah_truncate fs h n) = Inl quotaExceeded
      \<longleftrightarrow> state h = Open \<and> 0 \<le> n \<and> gt_number (Num n) (availableRoom fs h)"
  proof (cases "state h = Open \<and> 0 \<le> n")
    case True
    then show ?thesis
      by (cases "gt_number (Num n) (availableRoom fs h)")
         (simp_all add: sah_truncate_open,
          simp add: sah_truncate_def ensureNotClosed_def ensureHasFreeMemory_eq)
  next
    case False
    then show ?thesis
      by (cases "state h") (auto simp: sah_truncate_def ensureNotClosed_def quotaExceeded_def)
  qed
  show "fst (sah_write fs h b atOption) = Inl quotaExceeded
      \<longleftrightarrow> state h = Open \<and> 0 \<le> writePositionOf h atOption
          \<and> gt_number (Num (int (lengthAfterWrite h (nat (writePositionOf h atOption)) (length b))))
               (availableRoom fs h)"
  proof (cases "state h = Open \<and> 0 \<le> writePositionOf h atOption")
    case True
    then show ?thesis
      by (simp add: sah_write_unfold Let_def)
  next
    case False
    then show ?thesis
      by (cases "state h")
         (auto simp: sah_write_def writePositionOf_def ensureNotClosed_def quotaExceeded_def Let_def)
  qed
qed

text \<open>
  The room as the claim words it: the free space plus the size the file had when the handle
  was constructed.
\<close>

definition roomAtConstruction :: "FileSystem \<Rightarrow> nat \<Rightarrow> number" where
  "roomAtConstruction fs sizeAtConstruction =
     plus_number (getFreeDiskSpace fs) (Num (int sizeAtConstruction))"

text \<open>
  A disk of 10 bytes with the empty file; the handle after \<^verbatim>\<open>truncate(6)\<close>, and the
  file system after the \<^verbatim>\<open>flush()\<close> that follows.
\<close>

definition c4_h1 :: SyncAccessHandle where
  "c4_h1 = snd (sah_truncate (exampleDisk 10) exampleHandle 6)"

definition c4_fs2 :: FileSystem where
  "c4_fs2 = snd (flush (exampleDisk 10) c4_h1 1)"

lemma c4_h1_eq:
  "c4_h1 = \<lparr>tempFile = [0, 0, 0, 0, 0, 0], state = Open, cursor = 0, fileDescriptor = 1\<rparr>"
proof -
  have "\<not> gt_number (Num 6) (availableRoom (exampleDisk 10) exampleHandle)"
    by (simp add: availableRoom_def exampleDisk_eq exampleHandle_def getFreeDiskSpace_def
        getUsedDiskSpace_def enat_numeral [symmetric] del: enat_numeral)
  then show ?thesis
    by (simp add: c4_h1_def sah_truncate_open exampleHandle_def numeral_eq_Suc)
qed

lemma c4_fs2_eq:
  "c4_fs2 =
    \<lparr>registry = [([], 0), (''f'', 1)], disk = [(1, [0, 0, 0, 0, 0, 0])], diskSize = 10,
      heap = ((\<lambda>_. directoryDescriptor [])
                (1 := \<lparr>type = File, fullPath = ''f'', size_bytes = Num 6, lastModified = Some 1\<rparr>)),
      nextRef = 2\<rparr>"
  by (simp add: c4_fs2_def c4_h1_eq flush_def ensureNotClosed_def writeFile_def exampleDisk_eq
      getFreeDiskSpace_def getUsedDiskSpace_def Let_def enat_numeral [symmetric]
      numeral_eq_Suc del: enat_numeral)

lemma availableRoom_c4: "fileDescriptor h = 1 \<Longrightarrow> availableRoom c4_fs2 h = Num 10"
  by (simp add: availableRoom_def c4_fs2_eq getFreeDiskSpace_def getUsedDiskSpace_def
      enat_numeral [symmetric] del: enat_numeral)

theorem quota_check_uses_current_descriptor_size_witness:
  "fst (sah_truncate c4_fs2 c4_h1 11) = Inl quotaExceeded
   \<and> fst (sah_write c4_fs2 c4_h1 [1, 2, 3] (Some 8)) = Inl quotaExceeded
   \<and> fst (sah_write c4_fs2 c4_h1 [1, 2, 3] (Some 7)) \<noteq> Inl quotaExceeded"
  using quota_check_uses_current_descriptor_size [of c4_fs2 c4_h1 11 "[1, 2, 3]" "Some 8"]
    quota_check_uses_current_descriptor_size [of c4_fs2 c4_h1 11 "[1, 2, 3]" "Some 7"]
  by (simp add: availableRoom_c4 c4_h1_eq writePositionOf_def lengthAfterWrite_def)

text \<open>
  C4, as the claim states it, fails. The handle is constructed on the empty file (size 0 at
  construction); after \<^verbatim>\<open>truncate(6)\<close> and \<^verbatim>\<open>flush()\<close> the disk of 10 bytes has 4
  bytes free. The claim's room is 4 + 0, so \<^verbatim>\<open>truncate(10)\<close> would have to fail; the
  code reads the descriptor's size 6, finds room for 10 bytes, and succeeds.
\<close>

theorem room_at_construction_counterexample:
  "newSyncAccessHandle (exampleDisk 10) 1 True = Inr exampleHandle
   \<and> size_bytes (heap (exampleDisk 10) 1) = Num 0
   \<and> fst (flush (exampleDisk 10) c4_h1 1) = Inr ()
   \<and> roomAtConstruction c4_fs2 0 = Num 4
   \<and> gt_number (Num 10) (roomAtConstruction c4_fs2 0)
   \<and> fst (sah_truncate c4_fs2 c4_h1 10) = Inr ()"
proof -
  have "fst (flush (exampleDisk 10) c4_h1 1) = Inr ()"
    by (simp add: c4_h1_eq flush_def ensureNotClosed_def writeFile_def exampleDisk_eq
        getFreeDiskSpace_def getUsedDiskSpace_def Let_def enat_numeral [symmetric]
        del: enat_numeral)
  moreover have "roomAtConstruction c4_fs2 0 = Num 4"
    by (simp add: roomAtConstruction_def c4_fs2_eq getFreeDiskSpace_def getUsedDiskSpace_def
        enat_numeral [symmetric] del: enat_numeral)
  moreover have "fst (sah_truncate c4_fs2 c4_h1 10) = Inr ()"
    by (simp add: sah_truncate_open availableRoom_c4 c4_h1_eq)
  moreover have "newSyncAccessHandle (exampleDisk 10) 1 True = Inr exampleHandle"
    by (rule exampleHandle_new)
  moreover have "size_bytes (heap (exampleDisk 10) 1) = Num 0"
    by (simp add: exampleDisk_eq)
  ultimately show ?thesis
    by simp
qed

section \<open>What a setter call changes\<close>

text \<open>
  \<open>ownSubscribers\<close>: every subscriber in the store is one of the three closures the
  repository subscribes. Then a setter call with the state \<open>s\<close> passes \<open>s\<close> on to
  every subscriber it notifies, so whatever the subscriptions are, each \<^verbatim>\<open>read\<close> and
  \<^verbatim>\<open>readwrite\<close> field either keeps its value or becomes \<open>s\<close>, and the subscriber
  lists stay as they are.
\<close>

fun foreign :: "callback \<Rightarrow> bool" where
  "foreign (CallOther f) = True"
| "foreign (CallSetRead q) = False"
| "foreign (CallSetReadwrite q) = False"
| "foreign (DispatchChange i) = False"

definition ownSubscribers :: "PermissionObjects \<Rightarrow> bool" where
  "ownSubscribers st \<longleftrightarrow>
     (\<forall>x mode. \<forall>cb \<in> set (subscribers (permissionOf st x) mode). \<not> foreign cb)"

definition keepsOrSets :: "PermissionState \<Rightarrow> PermissionObjects \<Rightarrow> PermissionObjects \<Rightarrow> bool" where
  "keepsOrSets s st st' \<longleftrightarrow>
     (\<forall>x. (read (permissionOf st' x) = read (permissionOf st x) \<or> read (permissionOf st' x) = s)
        \<and> (readwrite (permissionOf st' x) = readwrite (permissionOf st x) \<or> readwrite (permissionOf st' x) = s)
        \<and> subscribers (permissionOf st' x) = subscribers (permissionOf st x))
     \<and> nextPermission st' = nextPermission st \<and> nextStatus st' = nextStatus st"

lemma keepsOrSets_refl: "keepsOrSets s st st"
  by (simp add: keepsOrSets_def)

lemma keepsOrSets_trans: "keepsOrSets s a b \<Longrightarrow> keepsOrSets s b c \<Longrightarrow> keepsOrSets s a c"
  unfolding keepsOrSets_def by metis

lemma keepsOrSets_read:
  "keepsOrSets s st (st\<lparr>permissionOf := (permissionOf st)(p := (permissionOf st p)\<lparr>read := s\<rparr>)\<rparr>)"
  by (simp add: keepsOrSets_def)

lemma keepsOrSets_readwrite:
  "keepsOrSets s st (st\<lparr>permissionOf := (permissionOf st)(p := (permissionOf st p)\<lparr>readwrite := s\<rparr>)\<rparr>)"
  by (simp add: keepsOrSets_def)

lemma keepsOrSets_dispatched: "keepsOrSets s st (st\<lparr>dispatched := d\<rparr>)"
  by (simp add: keepsOrSets_def)

lemma keeps_read: "keepsOrSets s a b \<Longrightarrow> read (permissionOf a x) = s \<Longrightarrow> read (permissionOf b x) = s"
  unfolding keepsOrSets_def by metis

lemma keeps_readwrite: "keepsOrSets s a b \<Longrightarrow> readwrite (permissionOf a x) = s \<Longrightarrow> readwrite (permissionOf b x) = s"
  unfolding keepsOrSets_def by metis

definition reached :: "PermissionState \<Rightarrow> PermissionObjects \<Rightarrow> callback \<Rightarrow> bool" where
  "reached s st cb = (case cb of CallSetRead q \<Rightarrow> read (permissionOf st q) = s
      | CallSetReadwrite q \<Rightarrow> readwrite (permissionOf st q) = s | DispatchChange i \<Rightarrow> True
      | CallOther f \<Rightarrow> True)"

lemma reached_keeps: "keepsOrSets s a b \<Longrightarrow> reached s a cb \<Longrightarrow> reached s b cb"
  by (cases cb) (auto simp: reached_def dest: keeps_read keeps_readwrite)

lemma ownSubscribers_keeps: "keepsOrSets s a b \<Longrightarrow> ownSubscribers a \<Longrightarrow> ownSubscribers b"
  by (simp add: ownSubscribers_def keepsOrSets_def)

lemma ownSubscribers_read:
  "ownSubscribers st \<Longrightarrow>
   ownSubscribers (st\<lparr>permissionOf := (permissionOf st)(p := (permissionOf st p)\<lparr>read := s\<rparr>)\<rparr>)"
  using ownSubscribers_keeps keepsOrSets_read by blast

lemma ownSubscribers_readwrite:
  "ownSubscribers st \<Longrightarrow>
   ownSubscribers (st\<lparr>permissionOf := (permissionOf st)(p := (permissionOf st p)\<lparr>readwrite := s\<rparr>)\<rparr>)"
  using ownSubscribers_keeps keepsOrSets_readwrite by blast

lemma ownSubscribers_list:
  "ownSubscribers st \<Longrightarrow> \<forall>cb \<in> set (subscribers (permissionOf st p) mode). \<not> foreign cb"
  by (simp add: ownSubscribers_def)

lemma cascade:
  "(\<forall>st p s st'. ownSubscribers st \<and> setRead n st p s = Some st' \<longrightarrow>
      keepsOrSets s st st' \<and> read (permissionOf st' p) = s
      \<and> (s \<noteq> Granted \<longrightarrow> readwrite (permissionOf st' p) = s))
   \<and> (\<forall>st p s st'. ownSubscribers st \<and> setReadwrite n st p s = Some st' \<longrightarrow>
      keepsOrSets s st st' \<and> readwrite (permissionOf st' p) = s
      \<and> (s = Granted \<longrightarrow> read (permissionOf st' p) = s))
   \<and> (\<forall>st cbs s st'. ownSubscribers st \<and> (\<forall>cb \<in> set cbs. \<not> foreign cb)
        \<and> notify n st cbs s = Some st' \<longrightarrow>
      keepsOrSets s st st' \<and> (\<forall>cb \<in> set cbs. reached s st' cb))"
proof (induction n)
  case 0
  then show ?case by simp
next
  case (Suc n)
  have R: "\<And>st p s st'. ownSubscribers st \<Longrightarrow> setRead n st p s = Some st' \<Longrightarrow>
      keepsOrSets s st st' \<and> read (permissionOf st' p) = s
      \<and> (s \<noteq> Granted \<longrightarrow> readwrite (permissionOf st' p) = s)"
    and W: "\<And>st p s st'. ownSubscribers st \<Longrightarrow> setReadwrite n st p s = Some st' \<Longrightarrow>
      keepsOrSets s st st' \<and> readwrite (permissionOf st' p) = s
      \<and> (s = Granted \<longrightarrow> read (permissionOf st' p) = s)"
    and N: "\<And>st cbs s st'. ownSubscribers st \<Longrightarrow> \<forall>cb \<in> set cbs. \<not> foreign cb \<Longrightarrow>
      notify n st cbs s = Some st' \<Longrightarrow>
      keepsOrSets s st st' \<and> (\<forall>cb \<in> set cbs. reached s st' cb)"
    using Suc by blast+
  have r: "keepsOrSets s st st' \<and> read (permissionOf st' p) = s
      \<and> (s \<noteq> Granted \<longrightarrow> readwrite (permissionOf st' p) = s)"
    if o: "ownSubscribers st" and h: "setRead (Suc n) st p s = Some st'" for st p s st'
  proof -
    define st1 where "st1 = st\<lparr>permissionOf := (permissionOf st)(p := (permissionOf st p)\<lparr>read := s\<rparr>)\<rparr>"
    obtain st2 where st2: "(if read (permissionOf st p) \<noteq> s
               then notify n st1 (subscribers (permissionOf st1 p) ModeRead) s
               else Some st1) = Some st2"
      and fin: "(if s \<noteq> Granted then setReadwrite n st2 p s else Some st2) = Some st'"
      using h unfolding st1_def by (auto simp: Let_def split: option.splits)
    have k1: "keepsOrSets s st st1" and r1: "read (permissionOf st1 p) = s"
      by (simp_all add: st1_def keepsOrSets_read)
    have o1: "ownSubscribers st1"
      using o unfolding st1_def by (rule ownSubscribers_read)
    have k2: "keepsOrSets s st1 st2"
      using st2 N [OF o1 ownSubscribers_list [OF o1, of p ModeRead]] keepsOrSets_refl
      by (auto split: if_splits)
    have o2: "ownSubscribers st2"
      using k2 o1 by (rule ownSubscribers_keeps)
    have r2: "read (permissionOf st2 p) = s"
      using k2 r1 keeps_read by blast
    show ?thesis
    proof (cases "s = Granted")
      case True
      with fin have "st' = st2" by simp
      with k1 k2 r2 True show ?thesis using keepsOrSets_trans by blast
    next
      case False
      with fin have w: "setReadwrite n st2 p s = Some st'" by simp
      from W [OF o2 w] k1 k2 r2 show ?thesis
        using keepsOrSets_trans keeps_read by blast
    qed
  qed
  have w: "keepsOrSets s st st' \<and> readwrite (permissionOf st' p) = s
      \<and> (s = Granted \<longrightarrow> read (permissionOf st' p) = s)"
    if o: "ownSubscribers st" and h: "setReadwrite (Suc n) st p s = Some st'" for st p s st'
  proof -
    obtain st1 where st1: "(if s = Granted then setRead n st p s else Some st) = Some st1"
      and rest: "(let oldState = readwrite (permissionOf st1 p);
               st2 = st1\<lparr>permissionOf := (permissionOf st1)
                           (p := (permissionOf st1 p)\<lparr>readwrite := s\<rparr>)\<rparr>
           in if oldState \<noteq> s
              then notify n st2 (subscribers (permissionOf st2 p) ModeReadwrite) s
              else Some st2) = Some st'"
      using h by (auto split: option.splits)
    define st2 where "st2 = st1\<lparr>permissionOf := (permissionOf st1)
                           (p := (permissionOf st1 p)\<lparr>readwrite := s\<rparr>)\<rparr>"
    have k1: "keepsOrSets s st st1" and g1: "s = Granted \<longrightarrow> read (permissionOf st1 p) = s"
      using st1 R [OF o] keepsOrSets_refl by (auto split: if_splits)
    have o1: "ownSubscribers st1"
      using k1 o by (rule ownSubscribers_keeps)
    have k2: "keepsOrSets s st1 st2" and w2: "readwrite (permissionOf st2 p) = s"
      and g2: "s = Granted \<longrightarrow> read (permissionOf st2 p) = s"
      using g1 by (simp_all add: st2_def keepsOrSets_readwrite)
    have o2: "ownSubscribers st2"
      using k2 o1 by (rule ownSubscribers_keeps)
    have fin: "(if readwrite (permissionOf st1 p) \<noteq> s
               then notify n st2 (subscribers (permissionOf st2 p) ModeReadwrite) s
               else Some st2) = Some st'"
      using rest unfolding st2_def Let_def .
    have k3: "keepsOrSets s st2 st'"
      using fin N [OF o2 ownSubscribers_list [OF o2, of p ModeReadwrite]] keepsOrSets_refl
      by (auto split: if_splits)
    show ?thesis
      using k1 k2 k3 w2 g2 keepsOrSets_trans keeps_read keeps_readwrite by blast
  qed
  have nt: "keepsOrSets s st st' \<and> (\<forall>cb \<in> set cbs. reached s st' cb)"
    if o: "ownSubscribers st" and l: "\<forall>cb \<in> set cbs. \<not> foreign cb"
      and h: "notify (Suc n) st cbs s = Some st'" for st cbs s st'
  proof (cases cbs)
    case Nil
    with h show ?thesis by (simp add: keepsOrSets_refl)
  next
    case (Cons cb rest)
    then obtain st1 where c: "(case cb of
              CallSetRead q \<Rightarrow> setRead n st q s
            | CallSetReadwrite q \<Rightarrow> setReadwrite n st q s
            | DispatchChange i \<Rightarrow> Some (st\<lparr>dispatched := dispatched st @ [i]\<rparr>)
            | CallOther f \<Rightarrow> runCalls n st (f s)) = Some st1"
      and n1: "notify n st1 rest s = Some st'"
      using h by (auto split: option.splits)
    from l Cons have nf: "\<not> foreign cb" and lr: "\<forall>cb \<in> set rest. \<not> foreign cb"
      by simp_all
    have k1: "keepsOrSets s st st1 \<and> reached s st1 cb"
      using c nf R [OF o] W [OF o] by (cases cb) (auto simp: reached_def keepsOrSets_dispatched)
    then have o1: "ownSubscribers st1"
      using o ownSubscribers_keeps by blast
    from N [OF o1 lr n1] k1 Cons show ?thesis
      using keepsOrSets_trans reached_keeps by auto
  qed
  from r w nt show ?case by blast
qed




text \<open>
  A permission whose subscribers are status objects only: the setters need no more than three
  calls beyond the longest subscriber list, and change the permission alone.
\<close>

definition observersOnly :: "PermissionObjects \<Rightarrow> pref \<Rightarrow> bool" where
  "observersOnly st p \<longleftrightarrow>
     (\<forall>mode. \<forall>cb \<in> set (subscribers (permissionOf st p) mode). \<exists>i. cb = DispatchChange i)"

lemma notify_observers:
  "\<forall>cb \<in> set cbs. \<exists>i. cb = DispatchChange i \<Longrightarrow> length cbs < n \<Longrightarrow>
   \<exists>st'. notify n st cbs s = Some st' \<and> permissionOf st' = permissionOf st"
proof (induction cbs arbitrary: n st)
  case Nil
  then obtain k where "n = Suc k" by (cases n) auto
  then show ?case by simp
next
  case (Cons cb cbs)
  then obtain k where n: "n = Suc k" by (cases n) auto
  from Cons.prems obtain i where cb: "cb = DispatchChange i" by auto
  from Cons.prems n have "length cbs < k" by simp
  with Cons.IH [of k "st\<lparr>dispatched := dispatched st @ [i]\<rparr>"] Cons.prems
  show ?case by (auto simp: n cb)
qed

lemma observersOnly_cong:
  "subscribers (permissionOf st' p) = subscribers (permissionOf st p) \<Longrightarrow>
   observersOnly st' p = observersOnly st p"
  by (simp add: observersOnly_def)

lemma setReadwrite_observers:
  assumes "observersOnly st p" and "length (subscribers (permissionOf st p) ModeReadwrite) < n"
    and "s \<noteq> Granted"
  shows "\<exists>st'. setReadwrite (Suc n) st p s = Some st'
           \<and> permissionOf st' = (permissionOf st)(p := (permissionOf st p)\<lparr>readwrite := s\<rparr>)"
proof -
  let ?st2 = "st\<lparr>permissionOf := (permissionOf st)(p := (permissionOf st p)\<lparr>readwrite := s\<rparr>)\<rparr>"
  have "\<forall>cb \<in> set (subscribers (permissionOf st p) ModeReadwrite). \<exists>i. cb = DispatchChange i"
    using assms(1) by (simp add: observersOnly_def)
  from notify_observers [OF this assms(2), of ?st2 s]
  obtain st' where "notify n ?st2 (subscribers (permissionOf st p) ModeReadwrite) s = Some st'"
    and "permissionOf st' = permissionOf ?st2" by blast
  with assms(3) show ?thesis by (auto simp: Let_def)
qed

lemma setRead_observers:
  assumes "observersOnly st p" and "length (subscribers (permissionOf st p) ModeRead) < Suc n"
    and "length (subscribers (permissionOf st p) ModeReadwrite) < n"
  shows "\<exists>st'. setRead (Suc (Suc n)) st p s = Some st'
           \<and> permissionOf st' = (permissionOf st)(p := (permissionOf st p)
                 \<lparr>read := s, readwrite := (if s \<noteq> Granted then s else readwrite (permissionOf st p))\<rparr>)"
proof -
  let ?st1 = "st\<lparr>permissionOf := (permissionOf st)(p := (permissionOf st p)\<lparr>read := s\<rparr>)\<rparr>"
  have obs: "\<forall>cb \<in> set (subscribers (permissionOf st p) ModeRead). \<exists>i. cb = DispatchChange i"
    using assms(1) by (simp add: observersOnly_def)
  obtain st2 where st2: "(if read (permissionOf st p) \<noteq> s
               then notify (Suc n) ?st1 (subscribers (permissionOf ?st1 p) ModeRead) s
               else Some ?st1) = Some st2" and p2: "permissionOf st2 = permissionOf ?st1"
    using notify_observers [OF obs assms(2), of ?st1 s] by (cases "read (permissionOf st p) \<noteq> s") auto
  show ?thesis
  proof (cases "s = Granted")
    case True
    with st2 p2 show ?thesis
      by (auto simp: Let_def fun_eq_iff)
  next
    case False
    have o2: "observersOnly st2 p" and l2: "length (subscribers (permissionOf st2 p) ModeReadwrite) < n"
      using assms p2 by (simp_all add: observersOnly_def)
    from setReadwrite_observers [OF o2 l2 False]
    obtain st' where "setReadwrite (Suc n) st2 p s = Some st'"
      and "permissionOf st' = (permissionOf st2)(p := (permissionOf st2 p)\<lparr>readwrite := s\<rparr>)"
      by blast
    with st2 p2 False show ?thesis
      by (auto simp: Let_def fun_eq_iff)
  qed
qed

lemma setReadwrite_Granted_observers:
  assumes "observersOnly st p" and "length (subscribers (permissionOf st p) ModeRead) < n"
    and "length (subscribers (permissionOf st p) ModeReadwrite) < Suc n"
  shows "\<exists>st'. setReadwrite (Suc (Suc n)) st p Granted = Some st'
           \<and> permissionOf st' = (permissionOf st)(p := (permissionOf st p)
                 \<lparr>read := Granted, readwrite := Granted\<rparr>)"
proof -
  let ?st1 = "st\<lparr>permissionOf := (permissionOf st)(p := (permissionOf st p)\<lparr>read := Granted\<rparr>)\<rparr>"
  have obs: "\<forall>cb \<in> set (subscribers (permissionOf st p) ModeRead). \<exists>i. cb = DispatchChange i"
    and obw: "\<forall>cb \<in> set (subscribers (permissionOf st p) ModeReadwrite). \<exists>i. cb = DispatchChange i"
    using assms(1) by (simp_all add: observersOnly_def)
  obtain st2 where st2: "(if read (permissionOf st p) \<noteq> Granted
               then notify n ?st1 (subscribers (permissionOf ?st1 p) ModeRead) Granted
               else Some ?st1) = Some st2" and p2: "permissionOf st2 = permissionOf ?st1"
    using notify_observers [OF obs assms(2), of ?st1 Granted]
    by (cases "read (permissionOf st p) \<noteq> Granted") auto
  then have r: "setRead (Suc n) st p Granted = Some st2"
    by (simp add: Let_def)
  let ?st3 = "st2\<lparr>permissionOf := (permissionOf st2)(p := (permissionOf st2 p)\<lparr>readwrite := Granted\<rparr>)\<rparr>"
  have "length (subscribers (permissionOf st p) ModeReadwrite) < Suc n" by (rule assms(3))
  from notify_observers [OF obw this, of ?st3 Granted]
  obtain st' where "notify (Suc n) ?st3 (subscribers (permissionOf st p) ModeReadwrite) Granted = Some st'"
    and "permissionOf st' = permissionOf ?st3" by blast
  with r p2 show ?thesis
    by (auto simp: Let_def fun_eq_iff)
qed

lemma setters_total:
  assumes "observersOnly st p"
    and "length (subscribers (permissionOf st p) ModeRead) + 3 \<le> n"
    and "length (subscribers (permissionOf st p) ModeReadwrite) + 3 \<le> n"
  shows "\<exists>st'. setRead n st p s = Some st'
           \<and> subscribers (permissionOf st' p) = subscribers (permissionOf st p)"
    and "\<exists>st'. setReadwrite n st p s = Some st'
           \<and> subscribers (permissionOf st' p) = subscribers (permissionOf st p)"
proof -
  from assms(2) obtain k where n: "n = Suc (Suc (Suc k))"
    by (metis add_Suc_right le_Suc_ex numeral_3_eq_3 add.commute add_0 add_Suc)
  have lr: "length (subscribers (permissionOf st p) ModeRead) < Suc k"
    and lw: "length (subscribers (permissionOf st p) ModeReadwrite) < Suc k"
    using assms(2,3) n by simp_all
  from setRead_observers [OF assms(1), of "Suc k" s] lr lw
  show "\<exists>st'. setRead n st p s = Some st'
           \<and> subscribers (permissionOf st' p) = subscribers (permissionOf st p)"
    unfolding n by auto
  show "\<exists>st'. setReadwrite n st p s = Some st'
           \<and> subscribers (permissionOf st' p) = subscribers (permissionOf st p)"
  proof (cases "s = Granted")
    case True
    from setReadwrite_Granted_observers [OF assms(1), of "Suc k"] lr lw True
    show ?thesis unfolding n by auto
  next
    case False
    from setReadwrite_observers [OF assms(1) _ False, of "Suc (Suc k)"] lw
    show ?thesis unfolding n by auto
  qed
qed

text \<open>
  \<open>notifiesChanges\<close>: whenever a field of a permission changed, the subscribers of
  that field were reached with the new state.
\<close>

definition notifiesChanges :: "PermissionState \<Rightarrow> PermissionObjects \<Rightarrow> PermissionObjects \<Rightarrow> bool" where
  "notifiesChanges s st st' \<longleftrightarrow>
     (\<forall>x cb. (read (permissionOf st' x) \<noteq> read (permissionOf st x)
                \<and> cb \<in> set (subscribers (permissionOf st x) ModeRead) \<longrightarrow> reached s st' cb)
           \<and> (readwrite (permissionOf st' x) \<noteq> readwrite (permissionOf st x)
                \<and> cb \<in> set (subscribers (permissionOf st x) ModeReadwrite) \<longrightarrow> reached s st' cb))"

lemma notifiesChanges_refl: "notifiesChanges s st st"
  by (simp add: notifiesChanges_def)

lemma keepsOrSets_subscribers:
  "keepsOrSets s a b \<Longrightarrow> subscribers (permissionOf b x) = subscribers (permissionOf a x)"
  by (simp add: keepsOrSets_def)

lemma notifiesChanges_trans:
  assumes "keepsOrSets s a b" and "keepsOrSets s b c"
    and "notifiesChanges s a b" and "notifiesChanges s b c"
  shows "notifiesChanges s a c"
  unfolding notifiesChanges_def
proof (intro allI conjI impI)
  fix x cb
  assume h: "read (permissionOf c x) \<noteq> read (permissionOf a x)
               \<and> cb \<in> set (subscribers (permissionOf a x) ModeRead)"
  show "reached s c cb"
  proof (cases "read (permissionOf b x) = read (permissionOf a x)")
    case True
    with h assms(4) keepsOrSets_subscribers [OF assms(1), of x] show ?thesis
      unfolding notifiesChanges_def by metis
  next
    case False
    with h assms(3) have "reached s b cb" unfolding notifiesChanges_def by metis
    with assms(2) show ?thesis using reached_keeps by blast
  qed
next
  fix x cb
  assume h: "readwrite (permissionOf c x) \<noteq> readwrite (permissionOf a x)
               \<and> cb \<in> set (subscribers (permissionOf a x) ModeReadwrite)"
  show "reached s c cb"
  proof (cases "readwrite (permissionOf b x) = readwrite (permissionOf a x)")
    case True
    with h assms(4) keepsOrSets_subscribers [OF assms(1), of x] show ?thesis
      unfolding notifiesChanges_def by metis
  next
    case False
    with h assms(3) have "reached s b cb" unfolding notifiesChanges_def by metis
    with assms(2) show ?thesis using reached_keeps by blast
  qed
qed

text \<open>assignment of a field followed by the notification of its subscribers\<close>

lemma assign_then_notify_read:
  assumes k: "keepsOrSets s st1 st2" and n: "notifiesChanges s st1 st2"
    and st1: "st1 = st\<lparr>permissionOf := (permissionOf st)(p := (permissionOf st p)\<lparr>read := s\<rparr>)\<rparr>"
    and told: "read (permissionOf st p) \<noteq> s \<longrightarrow>
                 (\<forall>cb \<in> set (subscribers (permissionOf st p) ModeRead). reached s st2 cb)"
  shows "notifiesChanges s st st2"
  unfolding notifiesChanges_def
proof (intro allI conjI impI)
  fix x cb
  assume h: "read (permissionOf st2 x) \<noteq> read (permissionOf st x)
               \<and> cb \<in> set (subscribers (permissionOf st x) ModeRead)"
  show "reached s st2 cb"
  proof (cases "x = p \<and> read (permissionOf st p) \<noteq> s")
    case True
    with h told show ?thesis by blast
  next
    case False
    then have "read (permissionOf st1 x) = read (permissionOf st x)"
      by (auto simp: st1)
    moreover have "subscribers (permissionOf st1 x) = subscribers (permissionOf st x)"
      by (simp add: st1)
    ultimately show ?thesis using h n unfolding notifiesChanges_def by metis
  qed
next
  fix x cb
  assume h: "readwrite (permissionOf st2 x) \<noteq> readwrite (permissionOf st x)
               \<and> cb \<in> set (subscribers (permissionOf st x) ModeReadwrite)"
  have "readwrite (permissionOf st1 x) = readwrite (permissionOf st x)"
    "subscribers (permissionOf st1 x) = subscribers (permissionOf st x)"
    by (simp_all add: st1)
  then show "reached s st2 cb" using h n unfolding notifiesChanges_def by metis
qed

lemma assign_then_notify_readwrite:
  assumes k: "keepsOrSets s st1 st2" and n: "notifiesChanges s st1 st2"
    and st1: "st1 = st\<lparr>permissionOf := (permissionOf st)(p := (permissionOf st p)\<lparr>readwrite := s\<rparr>)\<rparr>"
    and told: "readwrite (permissionOf st p) \<noteq> s \<longrightarrow>
                 (\<forall>cb \<in> set (subscribers (permissionOf st p) ModeReadwrite). reached s st2 cb)"
  shows "notifiesChanges s st st2"
  unfolding notifiesChanges_def
proof (intro allI conjI impI)
  fix x cb
  assume h: "readwrite (permissionOf st2 x) \<noteq> readwrite (permissionOf st x)
               \<and> cb \<in> set (subscribers (permissionOf st x) ModeReadwrite)"
  show "reached s st2 cb"
  proof (cases "x = p \<and> readwrite (permissionOf st p) \<noteq> s")
    case True
    with h told show ?thesis by blast
  next
    case False
    then have "readwrite (permissionOf st1 x) = readwrite (permissionOf st x)"
      by (auto simp: st1)
    moreover have "subscribers (permissionOf st1 x) = subscribers (permissionOf st x)"
      by (simp add: st1)
    ultimately show ?thesis using h n unfolding notifiesChanges_def by metis
  qed
next
  fix x cb
  assume h: "read (permissionOf st2 x) \<noteq> read (permissionOf st x)
               \<and> cb \<in> set (subscribers (permissionOf st x) ModeRead)"
  have "read (permissionOf st1 x) = read (permissionOf st x)"
    "subscribers (permissionOf st1 x) = subscribers (permissionOf st x)"
    by (simp_all add: st1)
  then show "reached s st2 cb" using h n unfolding notifiesChanges_def by metis
qed

lemma cascade_notifies:
  "(\<forall>st p s st'. ownSubscribers st \<and> setRead n st p s = Some st' \<longrightarrow> notifiesChanges s st st')
   \<and> (\<forall>st p s st'. ownSubscribers st \<and> setReadwrite n st p s = Some st' \<longrightarrow>
         notifiesChanges s st st')
   \<and> (\<forall>st cbs s st'. ownSubscribers st \<and> (\<forall>cb \<in> set cbs. \<not> foreign cb)
         \<and> notify n st cbs s = Some st' \<longrightarrow> notifiesChanges s st st')"
proof (induction n)
  case 0
  then show ?case by simp
next
  case (Suc n)
  have R: "\<And>st p s st'. ownSubscribers st \<Longrightarrow> setRead n st p s = Some st' \<Longrightarrow>
             notifiesChanges s st st'"
    and W: "\<And>st p s st'. ownSubscribers st \<Longrightarrow> setReadwrite n st p s = Some st' \<Longrightarrow>
             notifiesChanges s st st'"
    and N: "\<And>st cbs s st'. ownSubscribers st \<Longrightarrow> \<forall>cb \<in> set cbs. \<not> foreign cb \<Longrightarrow>
             notify n st cbs s = Some st' \<Longrightarrow> notifiesChanges s st st'"
    using Suc by blast+
  from cascade [of n]
  have KR: "\<And>st p s st'. ownSubscribers st \<Longrightarrow> setRead n st p s = Some st' \<Longrightarrow>
              keepsOrSets s st st'"
    and KW: "\<And>st p s st'. ownSubscribers st \<Longrightarrow> setReadwrite n st p s = Some st' \<Longrightarrow>
              keepsOrSets s st st'"
    and KN: "\<And>st cbs s st'. ownSubscribers st \<Longrightarrow> \<forall>cb \<in> set cbs. \<not> foreign cb \<Longrightarrow>
               notify n st cbs s = Some st' \<Longrightarrow>
               keepsOrSets s st st' \<and> (\<forall>cb \<in> set cbs. reached s st' cb)"
    by blast+
  have r: "notifiesChanges s st st'"
    if o: "ownSubscribers st" and h: "setRead (Suc n) st p s = Some st'" for st p s st'
  proof -
    define st1 where "st1 = st\<lparr>permissionOf := (permissionOf st)(p := (permissionOf st p)\<lparr>read := s\<rparr>)\<rparr>"
    obtain st2 where st2': "(if read (permissionOf st p) \<noteq> s
               then notify n st1 (subscribers (permissionOf st1 p) ModeRead) s
               else Some st1) = Some st2"
      and fin: "(if s \<noteq> Granted then setReadwrite n st2 p s else Some st2) = Some st'"
      using h unfolding st1_def by (auto simp: Let_def split: option.splits)
    have e: "subscribers (permissionOf st1 p) = subscribers (permissionOf st p)"
      by (simp add: st1_def)
    note st2 = st2' [unfolded e]
    have o1: "ownSubscribers st1"
      using o unfolding st1_def by (rule ownSubscribers_read)
    note l = ownSubscribers_list [OF o, of p ModeRead]
    have k12: "keepsOrSets s st1 st2" and n12: "notifiesChanges s st1 st2"
      and told: "read (permissionOf st p) \<noteq> s \<longrightarrow>
                 (\<forall>cb \<in> set (subscribers (permissionOf st p) ModeRead). reached s st2 cb)"
      using st2 KN [OF o1 l] N [OF o1 l] keepsOrSets_refl notifiesChanges_refl
      by (auto split: if_splits)
    have o2: "ownSubscribers st2"
      using k12 o1 by (rule ownSubscribers_keeps)
    have a: "notifiesChanges s st st2"
      using assign_then_notify_read [OF k12 n12 st1_def told] .
    have k02: "keepsOrSets s st st2"
      using keepsOrSets_trans [OF _ k12, of st] keepsOrSets_read [of s st p] by (simp add: st1_def)
    have k2: "keepsOrSets s st2 st'" and n2: "notifiesChanges s st2 st'"
      using fin KW [OF o2] W [OF o2] keepsOrSets_refl notifiesChanges_refl
      by (auto split: if_splits)
    show ?thesis using notifiesChanges_trans [OF k02 k2 a n2] .
  qed
  have w: "notifiesChanges s st st'"
    if o: "ownSubscribers st" and h: "setReadwrite (Suc n) st p s = Some st'" for st p s st'
  proof -
    obtain st0 where st0: "(if s = Granted then setRead n st p s else Some st) = Some st0"
      and rest: "(let oldState = readwrite (permissionOf st0 p);
               st2 = st0\<lparr>permissionOf := (permissionOf st0)
                           (p := (permissionOf st0 p)\<lparr>readwrite := s\<rparr>)\<rparr>
           in if oldState \<noteq> s
              then notify n st2 (subscribers (permissionOf st2 p) ModeReadwrite) s
              else Some st2) = Some st'"
      using h by (auto split: option.splits)
    define st1 where "st1 = st0\<lparr>permissionOf := (permissionOf st0)
                           (p := (permissionOf st0 p)\<lparr>readwrite := s\<rparr>)\<rparr>"
    have k0: "keepsOrSets s st st0" and n0: "notifiesChanges s st st0"
      using st0 KR [OF o] R [OF o] keepsOrSets_refl notifiesChanges_refl
      by (auto split: if_splits)
    have o0: "ownSubscribers st0"
      using k0 o by (rule ownSubscribers_keeps)
    have o1: "ownSubscribers st1"
      using o0 unfolding st1_def by (rule ownSubscribers_readwrite)
    note l = ownSubscribers_list [OF o0, of p ModeReadwrite]
    have e: "subscribers (permissionOf st1 p) = subscribers (permissionOf st0 p)"
      by (simp add: st1_def)
    have fin': "(if readwrite (permissionOf st0 p) \<noteq> s
               then notify n st1 (subscribers (permissionOf st1 p) ModeReadwrite) s
               else Some st1) = Some st'"
      using rest unfolding st1_def Let_def .
    note fin = fin' [unfolded e]
    have k1: "keepsOrSets s st1 st'" and n1: "notifiesChanges s st1 st'"
      and told: "readwrite (permissionOf st0 p) \<noteq> s \<longrightarrow>
                 (\<forall>cb \<in> set (subscribers (permissionOf st0 p) ModeReadwrite). reached s st' cb)"
      using fin KN [OF o1 l] N [OF o1 l] keepsOrSets_refl notifiesChanges_refl
      by (auto split: if_splits)
    have a: "notifiesChanges s st0 st'"
      using assign_then_notify_readwrite [OF k1 n1 st1_def told] .
    have k0': "keepsOrSets s st0 st'"
      using keepsOrSets_trans [OF _ k1, of st0] keepsOrSets_readwrite [of s st0 p]
      by (simp add: st1_def)
    show ?thesis using notifiesChanges_trans [OF k0 k0' n0 a] .
  qed
  have nt: "notifiesChanges s st st'"
    if o: "ownSubscribers st" and l: "\<forall>cb \<in> set cbs. \<not> foreign cb"
      and h: "notify (Suc n) st cbs s = Some st'" for st cbs s st'
  proof (cases cbs)
    case Nil
    with h show ?thesis by (simp add: notifiesChanges_refl)
  next
    case (Cons cb rest)
    then obtain st1 where c: "(case cb of
              CallSetRead q \<Rightarrow> setRead n st q s
            | CallSetReadwrite q \<Rightarrow> setReadwrite n st q s
            | DispatchChange i \<Rightarrow> Some (st\<lparr>dispatched := dispatched st @ [i]\<rparr>)
            | CallOther f \<Rightarrow> runCalls n st (f s)) = Some st1"
      and n1: "notify n st1 rest s = Some st'"
      using h by (auto split: option.splits)
    from l Cons have nf: "\<not> foreign cb" and lr: "\<forall>cb \<in> set rest. \<not> foreign cb"
      by simp_all
    have k1: "keepsOrSets s st st1" and m1: "notifiesChanges s st st1"
      using c nf KR [OF o] KW [OF o] R [OF o] W [OF o]
      by (cases cb; auto simp: keepsOrSets_dispatched notifiesChanges_def)+
    have o1: "ownSubscribers st1"
      using k1 o by (rule ownSubscribers_keeps)
    from KN [OF o1 lr n1] N [OF o1 lr n1] k1 m1 show ?thesis
      using notifiesChanges_trans by blast
  qed
  from r w nt show ?case by blast
qed

lemma setter_reaches_subscribers:
  "ownSubscribers st \<Longrightarrow> setRead n st p s = Some st' \<Longrightarrow> read (permissionOf st p) \<noteq> s \<Longrightarrow>
     cb \<in> set (subscribers (permissionOf st p) ModeRead) \<Longrightarrow> reached s st' cb"
  "ownSubscribers st \<Longrightarrow> setReadwrite n st p s = Some st' \<Longrightarrow>
     readwrite (permissionOf st p) \<noteq> s \<Longrightarrow>
     cb \<in> set (subscribers (permissionOf st p) ModeReadwrite) \<Longrightarrow> reached s st' cb"
  using cascade [of n] cascade_notifies [of n] unfolding notifiesChanges_def by metis+



















section \<open>Claims about Permission\<close>






text \<open>
  \<^verbatim>\<open>new Permission()\<close>, both states \<^verbatim>\<open>"prompt"\<close>, in an empty store; and two such
  permissions, the second subscribed to the first as \<^verbatim>\<open>findOrCreatePermission\<close>
  subscribes a child to its parent.
\<close>

definition emptyObjects :: PermissionObjects where
  "emptyObjects = objects (newPermissionsManager (DefaultPermissionsProvider Prompt Prompt Granted))"

definition promptPermission :: PermissionObjects where
  "promptPermission = snd (newPermission emptyObjects Prompt Prompt)"


lemma promptPermission_0:
  "permissionOf promptPermission 0 = \<lparr>read = Prompt, readwrite = Prompt, subscribers = (\<lambda>_. [])\<rparr>"
  by (simp add: promptPermission_def newPermission_def emptyObjects_def newPermissionsManager_def)





text \<open>
  Why the subscribers have to be the repository's own: a subscriber that answers
  \<^verbatim>\<open>"granted"\<close> by calling \<^verbatim>\<open>setRead("denied")\<close> on the permission it is subscribed
  to leaves, after \<^verbatim>\<open>setReadwrite("granted")\<close>, \<^verbatim>\<open>readwrite\<close> granted and
  \<^verbatim>\<open>read\<close> denied.
\<close>

definition revoking :: callback where
  "revoking = CallOther (\<lambda>s. if s = Granted then [(0, SetRead Denied)] else [])"

definition watchedPermission :: PermissionObjects where
  "watchedPermission = subscribe promptPermission 0 ModeRead revoking"

lemma watchedPermission_0:
  "permissionOf watchedPermission 0 =
     \<lparr>read = Prompt, readwrite = Prompt,
      subscribers = (\<lambda>_. [])(ModeRead := [revoking])\<rparr>"
  by (simp add: watchedPermission_def subscribe_def promptPermission_0)

lemma foreign_subscriber_breaks_coupling:
  "read (permissionOf (the (setReadwrite 8 watchedPermission 0 Granted)) 0) = Denied
   \<and> readwrite (permissionOf (the (setReadwrite 8 watchedPermission 0 Granted)) 0) = Granted"
  by (simp add: eval_nat_numeral watchedPermission_0 revoking_def Let_def)

section \<open>Claims about the writable stream sink\<close>

text \<open>
  The fixture of the repository's sink tests, on the empty file: a disk of 1000 bytes, a
  provider that grants everything, and a sink on a fresh handle. \<open>exampleWorld1\<close> is the
  world after the first permission check, which creates the permissions of the file and of
  the root.
\<close>

definition exampleWorld :: World where
  "exampleWorld = \<lparr>fileSystem = exampleDisk 1000,
      permissionsManager = newPermissionsManager (DefaultPermissionsProvider Granted Granted Granted)\<rparr>"

definition exampleSink :: WritableFileStreamSink where
  "exampleSink = \<lparr>sinkCursor = 0, fileSize = 0, isClosed = False, sinkError = None,
                       syncAccessHandle = exampleHandle, sinkDescriptor = 1\<rparr>"

lemma exampleSink_new: "newWritableFileStreamSink exampleHandle 1 = Inr exampleSink"
  by (simp add: newWritableFileStreamSink_def getSize_def ensureNotClosed_def exampleHandle_def exampleSink_def)

lemma dirname_f: "dirname ''f'' = Some []"
  by (simp add: dirname_def pathSegments_def isSeparator_def)

definition exampleWorld1 :: World where
  "exampleWorld1 = snd (the (ensureHasWritePermission 3 exampleWorld exampleSink))"

lemma exampleWorld1: "ensureHasWritePermission 3 exampleWorld exampleSink = Some (Inr (), exampleWorld1)"
  unfolding exampleWorld1_def
  by (simp add: ensureHasWritePermission_def exampleWorld_def exampleSink_def getStatus_def ensureIsValidMode_def
    getPermission_def ensureIsValidPath_def exists_def exampleDisk_eq findOrCreatePermission.simps dirname_f
    newPermissionsManager_def DefaultPermissionsProvider_def newPermission_def Let_def numeral_3_eq_3
    getRead_def getReadwrite_def subscribe_def newFileSystemPermissionStatus_def modeOf_def statusState_def)

text \<open>
  The file of a sink exists and its permission is there with \<^verbatim>\<open>readwrite\<close> granted:
  then the permission check passes, whatever the number of setter calls allowed.
\<close>

definition writeGranted :: "World \<Rightarrow> ref \<Rightarrow> bool" where
  "writeGranted w d \<longleftrightarrow>
     exists (fileSystem w) (fullPath (heap (fileSystem w) d))
     \<and> (case map_of (permissions (permissionsManager w)) (fullPath (heap (fileSystem w) d)) of
          None \<Rightarrow> False
        | Some p \<Rightarrow> readwrite (permissionOf (objects (permissionsManager w)) p) = Granted)"

lemma ensureHasWritePermission_granted:
  assumes "writeGranted w (sinkDescriptor sink)"
  shows "\<exists>w1. ensureHasWritePermission n w sink = Some (Inr (), w1)
           \<and> fileSystem w1 = fileSystem w \<and> writeGranted w1 (sinkDescriptor sink)"
  using assms
  by (auto simp: writeGranted_def ensureHasWritePermission_def getStatus_def ensureIsValidMode_def
      getPermission_def ensureIsValidPath_def findOrCreatePermission.simps modeOf_def
      newFileSystemPermissionStatus_def statusState_def getReadwrite_def subscribe_def Let_def
      split: option.splits)

lemma writeGranted_exampleWorld1: "writeGranted exampleWorld1 1"
  unfolding exampleWorld1_def
  by (simp add: writeGranted_def ensureHasWritePermission_def exampleWorld_def exampleSink_def getStatus_def ensureIsValidMode_def
    getPermission_def ensureIsValidPath_def exists_def exampleDisk_eq findOrCreatePermission.simps dirname_f
    newPermissionsManager_def DefaultPermissionsProvider_def newPermission_def Let_def numeral_3_eq_3
    getRead_def getReadwrite_def subscribe_def newFileSystemPermissionStatus_def modeOf_def statusState_def)

lemma fileSystem_exampleWorld1: "fileSystem exampleWorld1 = exampleDisk 1000"
  unfolding exampleWorld1_def
  by (simp add: writeGranted_def ensureHasWritePermission_def exampleWorld_def exampleSink_def getStatus_def ensureIsValidMode_def
    getPermission_def ensureIsValidPath_def exists_def exampleDisk_eq findOrCreatePermission.simps dirname_f
    newPermissionsManager_def DefaultPermissionsProvider_def newPermission_def Let_def numeral_3_eq_3
    getRead_def getReadwrite_def subscribe_def newFileSystemPermissionStatus_def modeOf_def statusState_def)

text \<open>
  C6, as the code has it. (1) While an error is remembered, every \<^verbatim>\<open>write\<close> call throws
  that same error and changes nothing. (2) An error thrown by command validation or by a
  seek or truncate command is remembered. (3) A \<^verbatim>\<open>close\<close> call on a sink with a
  remembered error does not throw that error: once its closed and permission checks pass it
  throws a \<^verbatim>\<open>TypeError\<close> of its own. (4) The checks that \<^verbatim>\<open>write\<close> runs before the
  command are not remembered: on a closed sink without a remembered error it throws the
  \<^verbatim>\<open>TypeError\<close> of the closed check, and when the permission check throws, that error
  is thrown; in both cases the sink is left as it was, with no error remembered.
\<close>

theorem sticky_sink_error:
  "(sinkError sink = Some e \<longrightarrow> sink_write n w sink c = Some (Inl e, sink, w))
   \<and> (sinkError sink = None \<and> \<not> isClosed sink
        \<and> ensureHasWritePermission n w sink = Some (Inr (), w1)
        \<and> (commandType (convertToWriteParams c) \<noteq> ''write''
             \<or> validateWriteCommand (convertToWriteParams c) \<noteq> Inr ())
        \<and> sink_write n w sink c = Some (Inl e, sink', w') \<longrightarrow>
      sinkError sink' = Some e)
   \<and> (sinkError sink = Some e \<and> \<not> isClosed sink
        \<and> ensureHasWritePermission n w sink = Some (Inr (), w1) \<longrightarrow>
      sink_close n w sink now
        = Some (Inl (TypeError ''Cannot close a ERRORED writable stream''), sink, w1))
   \<and> (sinkError sink = None \<and> isClosed sink \<longrightarrow>
      sink_write n w sink c
        = Some (Inl (TypeError ''Cannot write to a CLOSED writable stream''), sink, w))
   \<and> (sinkError sink = None \<and> \<not> isClosed sink
        \<and> ensureHasWritePermission n w sink = Some (Inl e, w1) \<longrightarrow>
      sink_write n w sink c = Some (Inl e, sink, w1))"
proof (intro conjI impI)
  assume "sinkError sink = Some e"
  then show "sink_write n w sink c = Some (Inl e, sink, w)"
    by (simp add: sink_write_def ensureNotInErrorState_def)
next
  assume a: "sinkError sink = None \<and> \<not> isClosed sink
        \<and> ensureHasWritePermission n w sink = Some (Inr (), w1)
        \<and> (commandType (convertToWriteParams c) \<noteq> ''write''
             \<or> validateWriteCommand (convertToWriteParams c) \<noteq> Inr ())
        \<and> sink_write n w sink c = Some (Inl e, sink', w')"
  then have d: "dispatchCommand w1 sink c = (Inl e, sink')"
    by (auto simp: sink_write_def ensureNotInErrorState_def sinkEnsureNotClosed_def split: prod.splits)
  from a have k: "commandType (convertToWriteParams c) \<noteq> ''write''
             \<or> validateWriteCommand (convertToWriteParams c) \<noteq> Inr ()" by blast
  show "sinkError sink' = Some e"
  proof (cases "validateWriteCommand (convertToWriteParams c)")
    case (Inl e')
    with d show ?thesis by (auto simp: dispatchCommand_def Let_def)
  next
    case (Inr u)
    with k have "commandType (convertToWriteParams c) \<noteq> ''write''" by simp
    with d Inr show ?thesis
      by (auto simp: dispatchCommand_def Let_def split: if_splits prod.splits sum.splits)
  qed
next
  assume "sinkError sink = Some e \<and> \<not> isClosed sink
        \<and> ensureHasWritePermission n w sink = Some (Inr (), w1)"
  then show "sink_close n w sink now
        = Some (Inl (TypeError ''Cannot close a ERRORED writable stream''), sink, w1)"
    by (simp add: sink_close_def sinkEnsureNotClosed_def)
next
  assume "sinkError sink = None \<and> isClosed sink"
  then show "sink_write n w sink c
        = Some (Inl (TypeError ''Cannot write to a CLOSED writable stream''), sink, w)"
    by (simp add: sink_write_def ensureNotInErrorState_def sinkEnsureNotClosed_def)
next
  assume "sinkError sink = None \<and> \<not> isClosed sink
        \<and> ensureHasWritePermission n w sink = Some (Inl e, w1)"
  then show "sink_write n w sink c = Some (Inl e, sink, w1)"
    by (simp add: sink_write_def ensureNotInErrorState_def sinkEnsureNotClosed_def)
qed

text \<open>The three command shapes.\<close>

definition seekCommand :: "unknown option \<Rightarrow> chunk" where
  "seekCommand p = ChunkParams \<lparr>commandType = ''seek'', data = NoData, position = p, size_arg = Undefined\<rparr>"

definition truncateCommand :: "unknown \<Rightarrow> chunk" where
  "truncateCommand v = ChunkParams \<lparr>commandType = ''truncate'', data = NoData, position = None, size_arg = v\<rparr>"

definition writeCommand :: "payload \<Rightarrow> unknown option \<Rightarrow> chunk" where
  "writeCommand d p = ChunkParams \<lparr>commandType = ''write'', data = d, position = p, size_arg = Undefined\<rparr>"

definition erroredSink :: WritableFileStreamSink where
  "erroredSink = exampleSink\<lparr>sinkError := Some (throwInvalidParams ''seek'' ''position'')\<rparr>"

lemma sink_write_dispatch:
  assumes "sinkError sink = None" and "\<not> isClosed sink"
    and "ensureHasWritePermission n w sink = Some (Inr (), w1)"
  shows "sink_write n w sink c
           = Some (fst (dispatchCommand w1 sink c), snd (dispatchCommand w1 sink c), w1)"
  using assms
  by (simp add: sink_write_def ensureNotInErrorState_def sinkEnsureNotClosed_def split: prod.splits)

lemma dispatch_seek:
  "dispatchCommand w sink (seekCommand (Some (Value x)))
     = (Inr (), sink\<lparr>sinkCursor := nat (prepareSeekPosition (Value x))\<rparr>)"
  by (simp add: dispatchCommand_def seekCommand_def convertToWriteParams_def
      validateWriteCommand_def doSeek_def)

lemma dispatch_seek_missing:
  "dispatchCommand w sink (seekCommand None)
     = (Inl (throwInvalidParams ''seek'' ''position''),
        sink\<lparr>sinkError := Some (throwInvalidParams ''seek'' ''position'')\<rparr>)"
  by (simp add: dispatchCommand_def seekCommand_def convertToWriteParams_def
      validateWriteCommand_def)

lemma dispatch_truncate:
  "dispatchCommand w sink (truncateCommand (Value x))
     = (case doTruncate w sink (prepareTruncateSize (Value x)) of
          (Inl e, sink1) \<Rightarrow> (Inl e, sink1\<lparr>sinkError := Some e\<rparr>)
        | (Inr _, sink1) \<Rightarrow> (Inr (), sink1))"
  by (simp add: dispatchCommand_def truncateCommand_def convertToWriteParams_def
      validateWriteCommand_def)

lemma dispatch_write:
  "d \<noteq> NoData \<Longrightarrow> d \<noteq> NullData \<Longrightarrow>
   dispatchCommand w sink (writeCommand d (Some v))
     = doWrite w sink d (Some (prepareSeekPosition v))"
  by (simp add: dispatchCommand_def writeCommand_def convertToWriteParams_def
      validateWriteCommand_def)

lemma doTruncate_zero:
  assumes "state (syncAccessHandle sink) = Open"
    and "\<not> gt_number (Num 0) (availableRoom (fileSystem w) (syncAccessHandle sink))"
  shows "doTruncate w sink 0
           = (Inr (), sink\<lparr>syncAccessHandle := (syncAccessHandle sink)\<lparr>tempFile := [], cursor := 0\<rparr>,
                          sinkCursor := 0, fileSize := 0\<rparr>)"
  using assms by (simp add: doTruncate_def sah_truncate_open Let_def)

text \<open>
  C10. \<^verbatim>\<open>prepareTruncateSize\<close> and \<^verbatim>\<open>prepareSeekPosition\<close> map \<^verbatim>\<open>NaN\<close> to 0
  and clamp negative numbers to 0. On a sink that is open, without a remembered error and
  with write permission: a seek to any number succeeds with the cursor at the coerced
  position, so \<^verbatim>\<open>{type: "seek", position: -5}\<close> sets the cursor to 0; a truncate to any
  number does what \<^verbatim>\<open>doTruncate\<close> does with the coerced size, and raises no error of
  its own; hence a truncate to \<^verbatim>\<open>NaN\<close> or to any number that is not positive, such as
  \<^verbatim>\<open>{type: "truncate", size: -1}\<close>, truncates to 0 and succeeds (the handle being open
  and the quota allowing an empty file); a write command writes at the coerced position.
  The handle itself raises a \<^verbatim>\<open>TypeError\<close> for a negative size or offset.
\<close>

theorem sink_coercion:
  assumes "sinkError sink = None" and "\<not> isClosed sink"
    and "ensureHasWritePermission n w sink = Some (Inr (), w1)"
  shows "prepareTruncateSize (Value NaN) = 0
       \<and> prepareTruncateSize (Value (Finite k)) = max 0 k
       \<and> prepareSeekPosition v = prepareTruncateSize v
       \<and> sink_write n w sink (seekCommand (Some (Value x)))
           = Some (Inr (), sink\<lparr>sinkCursor := nat (prepareTruncateSize (Value x))\<rparr>, w1)
       \<and> sink_write n w sink (seekCommand (Some (Value (Finite (- 5)))))
           = Some (Inr (), sink\<lparr>sinkCursor := 0\<rparr>, w1)
       \<and> sink_write n w sink (truncateCommand (Value x))
           = Some (case doTruncate w1 sink (prepareTruncateSize (Value x)) of
                     (Inl e, sink1) \<Rightarrow> (Inl e, sink1\<lparr>sinkError := Some e\<rparr>, w1)
                   | (Inr u, sink1) \<Rightarrow> (Inr (), sink1, w1))
       \<and> (state (syncAccessHandle sink) = Open
            \<and> \<not> gt_number (Num 0) (availableRoom (fileSystem w1) (syncAccessHandle sink))
            \<and> (x = NaN \<or> (\<exists>j. x = Finite j \<and> j \<le> 0)) \<longrightarrow>
          sink_write n w sink (truncateCommand (Value x))
           = Some (Inr (), sink\<lparr>syncAccessHandle := (syncAccessHandle sink)\<lparr>tempFile := [], cursor := 0\<rparr>,
                                 sinkCursor := 0, fileSize := 0\<rparr>, w1))
       \<and> (state (syncAccessHandle sink) = Open
            \<and> \<not> gt_number (Num 0) (availableRoom (fileSystem w1) (syncAccessHandle sink)) \<longrightarrow>
          sink_write n w sink (truncateCommand (Value (Finite (- 1))))
           = Some (Inr (), sink\<lparr>syncAccessHandle := (syncAccessHandle sink)\<lparr>tempFile := [], cursor := 0\<rparr>,
                                 sinkCursor := 0, fileSize := 0\<rparr>, w1))
       \<and> (d \<noteq> NoData \<and> d \<noteq> NullData \<longrightarrow>
          sink_write n w sink (writeCommand d (Some (Value x)))
           = Some (fst (doWrite w1 sink d (Some (prepareTruncateSize (Value x)))),
                   snd (doWrite w1 sink d (Some (prepareTruncateSize (Value x)))), w1))
       \<and> (state h = Open \<longrightarrow>
            fst (sah_truncate fs h (- 1)) = Inl (TypeError ''Negative file size is not supported'')
          \<and> fst (sah_write fs h b (Some (- 5))) = Inl (TypeError ''Negative writing offset is not supported''))"
proof -
  note w = sink_write_dispatch [OF assms]
  have g: "sink_write n w sink (truncateCommand (Value x))
           = Some (case doTruncate w1 sink (prepareTruncateSize (Value x)) of
                     (Inl e, sink1) \<Rightarrow> (Inl e, sink1\<lparr>sinkError := Some e\<rparr>, w1)
                   | (Inr u, sink1) \<Rightarrow> (Inr (), sink1, w1))"
    by (simp add: w dispatch_truncate split: prod.splits sum.splits)
  have z: "state (syncAccessHandle sink) = Open
            \<and> \<not> gt_number (Num 0) (availableRoom (fileSystem w1) (syncAccessHandle sink))
            \<and> (x = NaN \<or> (\<exists>j. x = Finite j \<and> j \<le> 0)) \<longrightarrow>
          sink_write n w sink (truncateCommand (Value x))
           = Some (Inr (), sink\<lparr>syncAccessHandle := (syncAccessHandle sink)\<lparr>tempFile := [], cursor := 0\<rparr>,
                                 sinkCursor := 0, fileSize := 0\<rparr>, w1)"
  proof (intro impI)
    assume a: "state (syncAccessHandle sink) = Open
            \<and> \<not> gt_number (Num 0) (availableRoom (fileSystem w1) (syncAccessHandle sink))
            \<and> (x = NaN \<or> (\<exists>j. x = Finite j \<and> j \<le> 0))"
    then have "prepareTruncateSize (Value x) = 0"
      by (auto simp: prepareTruncateSize_def)
    with a show "sink_write n w sink (truncateCommand (Value x))
           = Some (Inr (), sink\<lparr>syncAccessHandle := (syncAccessHandle sink)\<lparr>tempFile := [], cursor := 0\<rparr>,
                                 sinkCursor := 0, fileSize := 0\<rparr>, w1)"
      by (simp add: g doTruncate_zero)
  qed
  have t: "state (syncAccessHandle sink) = Open
            \<and> \<not> gt_number (Num 0) (availableRoom (fileSystem w1) (syncAccessHandle sink)) \<longrightarrow>
          sink_write n w sink (truncateCommand (Value (Finite (- 1))))
           = Some (Inr (), sink\<lparr>syncAccessHandle := (syncAccessHandle sink)\<lparr>tempFile := [], cursor := 0\<rparr>,
                                 sinkCursor := 0, fileSize := 0\<rparr>, w1)"
    by (simp add: w dispatch_truncate prepareTruncateSize_def doTruncate_zero)
  have h: "state h = Open \<longrightarrow>
            fst (sah_truncate fs h (- 1)) = Inl (TypeError ''Negative file size is not supported'')
          \<and> fst (sah_write fs h b (Some (- 5))) = Inl (TypeError ''Negative writing offset is not supported'')"
    by (simp add: sah_truncate_def sah_write_def ensureNotClosed_def)
  have p: "prepareTruncateSize (Value NaN) = 0 \<and> prepareTruncateSize (Value (Finite k)) = max 0 k
       \<and> prepareSeekPosition v = prepareTruncateSize v"
    by (simp add: prepareTruncateSize_def prepareSeekPosition_def)
  have s: "sink_write n w sink (seekCommand (Some (Value x)))
           = Some (Inr (), sink\<lparr>sinkCursor := nat (prepareTruncateSize (Value x))\<rparr>, w1)"
    "sink_write n w sink (seekCommand (Some (Value (Finite (- 5)))))
           = Some (Inr (), sink\<lparr>sinkCursor := 0\<rparr>, w1)"
    by (simp_all add: w dispatch_seek prepareSeekPosition_def prepareTruncateSize_def)
  have d: "d \<noteq> NoData \<and> d \<noteq> NullData \<longrightarrow>
          sink_write n w sink (writeCommand d (Some (Value x)))
           = Some (fst (doWrite w1 sink d (Some (prepareTruncateSize (Value x)))),
                   snd (doWrite w1 sink d (Some (prepareTruncateSize (Value x)))), w1)"
    by (simp add: w dispatch_write prepareSeekPosition_def)
  from p s g z t d h show ?thesis by blast
qed

lemma seek_without_position:
  "sink_write 3 exampleWorld exampleSink (seekCommand None)
     = Some (Inl (throwInvalidParams ''seek'' ''position''), erroredSink, exampleWorld1)"
proof -
  have "sinkError exampleSink = None" "\<not> isClosed exampleSink"
    by (simp_all add: exampleSink_def)
  from sink_write_dispatch [OF this exampleWorld1] show ?thesis
    by (simp add: dispatch_seek_missing erroredSink_def)
qed

lemma close_errored:
  "\<exists>w2. sink_close 3 exampleWorld1 erroredSink 0
     = Some (Inl (TypeError ''Cannot close a ERRORED writable stream''), erroredSink, w2)"
proof -
  have "writeGranted exampleWorld1 (sinkDescriptor erroredSink)"
    using writeGranted_exampleWorld1 by (simp add: erroredSink_def exampleSink_def)
  from ensureHasWritePermission_granted [OF this, of 3]
  obtain w2 where "ensureHasWritePermission 3 exampleWorld1 erroredSink = Some (Inr (), w2)"
    by blast
  then show ?thesis
    by (simp add: sink_close_def sinkEnsureNotClosed_def erroredSink_def exampleSink_def)
qed

theorem sink_coercion_witness:
  "sinkError exampleSink = None \<and> \<not> isClosed exampleSink
   \<and> ensureHasWritePermission 3 exampleWorld exampleSink = Some (Inr (), exampleWorld1)
   \<and> sink_write 3 exampleWorld exampleSink (seekCommand (Some (Value (Finite (- 5)))))
       = Some (Inr (), exampleSink\<lparr>sinkCursor := 0\<rparr>, exampleWorld1)
   \<and> sink_write 3 exampleWorld exampleSink (truncateCommand (Value (Finite (- 1))))
       = Some (Inr (), exampleSink\<lparr>syncAccessHandle := (syncAccessHandle exampleSink)\<lparr>tempFile := [], cursor := 0\<rparr>,
                                   sinkCursor := 0, fileSize := 0\<rparr>, exampleWorld1)"
proof -
  have h: "sinkError exampleSink = None" "\<not> isClosed exampleSink"
    by (simp_all add: exampleSink_def)
  have room: "state (syncAccessHandle exampleSink) = Open
     \<and> \<not> gt_number (Num 0) (availableRoom (fileSystem exampleWorld1) (syncAccessHandle exampleSink))"
    by (simp add: exampleSink_def exampleHandle_def fileSystem_exampleWorld1 availableRoom_def
        exampleDisk_eq getFreeDiskSpace_def getUsedDiskSpace_def enat_numeral [symmetric]
        del: enat_numeral)
  from sink_coercion [OF h exampleWorld1] h exampleWorld1 room show ?thesis
    by blast
qed

theorem sticky_sink_error_witness:
  "sinkError exampleSink = None \<and> \<not> isClosed exampleSink
   \<and> ensureHasWritePermission 3 exampleWorld exampleSink = Some (Inr (), exampleWorld1)
   \<and> sink_write 3 exampleWorld exampleSink (seekCommand None)
       = Some (Inl (throwInvalidParams ''seek'' ''position''), erroredSink, exampleWorld1)
   \<and> sinkError erroredSink = Some (throwInvalidParams ''seek'' ''position'')
   \<and> sink_write 3 exampleWorld1 erroredSink (seekCommand (Some (Value (Finite 1))))
       = Some (Inl (throwInvalidParams ''seek'' ''position''), erroredSink, exampleWorld1)"
proof -
  have h: "sinkError exampleSink = None \<and> \<not> isClosed exampleSink"
    by (simp add: exampleSink_def)
  have e: "sinkError erroredSink = Some (throwInvalidParams ''seek'' ''position'')"
    by (simp add: erroredSink_def)
  from sticky_sink_error [of erroredSink "throwInvalidParams ''seek'' ''position''" 3 exampleWorld1
      "seekCommand (Some (Value (Finite 1)))"] e
  have "sink_write 3 exampleWorld1 erroredSink (seekCommand (Some (Value (Finite 1))))
       = Some (Inl (throwInvalidParams ''seek'' ''position''), erroredSink, exampleWorld1)"
    by blast
  with h e exampleWorld1 seek_without_position show ?thesis
    by blast
qed

text \<open>
  C6, as the claim states it, fails for \<^verbatim>\<open>close\<close>: after \<^verbatim>\<open>write({type: "seek"})\<close>
  has thrown and the sink remembers its \<^verbatim>\<open>TypeError\<close>, \<^verbatim>\<open>close()\<close> throws another
  error, the \<^verbatim>\<open>TypeError\<close> \<^verbatim>\<open>"Cannot close a ERRORED writable stream"\<close>.
\<close>

theorem close_throws_other_error_counterexample:
  "sink_write 3 exampleWorld exampleSink (seekCommand None)
       = Some (Inl (throwInvalidParams ''seek'' ''position''), erroredSink, exampleWorld1)
   \<and> sinkError erroredSink = Some (throwInvalidParams ''seek'' ''position'')
   \<and> (\<exists>w2. sink_close 3 exampleWorld1 erroredSink 0
         = Some (Inl (TypeError ''Cannot close a ERRORED writable stream''), erroredSink, w2))
   \<and> TypeError ''Cannot close a ERRORED writable stream'' \<noteq> throwInvalidParams ''seek'' ''position''"
proof -
  have "sinkError erroredSink = Some (throwInvalidParams ''seek'' ''position'')"
    by (simp add: erroredSink_def)
  moreover have "TypeError ''Cannot close a ERRORED writable stream''
                   \<noteq> throwInvalidParams ''seek'' ''position''"
    by (simp add: throwInvalidParams_def)
  ultimately show ?thesis
    using seek_without_position close_errored by blast
qed

section \<open>Invariants of the file system\<close>

text \<open>
  \<open>consistent\<close>: every registered descriptor was allocated, sits under its own
  \<^verbatim>\<open>fullPath\<close>, and, when it is a file, has a disk record as long as its \<^verbatim>\<open>size\<close>
  says. \<open>withinQuota\<close>: the used disk space does not exceed the total disk space.
  \<open>whole\<close>: the number is a whole number.
\<close>

definition whole :: "number \<Rightarrow> bool" where
  "whole v \<longleftrightarrow> (case v of Rational q \<Rightarrow> q = of_int \<lfloor>q\<rfloor> | _ \<Rightarrow> False)"

definition wholeSize :: "number option \<Rightarrow> bool" where
  "wholeSize sizeOption \<longleftrightarrow> (case sizeOption of None \<Rightarrow> True | Some v \<Rightarrow> whole v)"

lemma whole_Num [simp]: "whole (Num k)"
  by (simp add: whole_def)

lemma whole_numeral [simp]: "whole (Rational 0)" "whole (Rational 1)" "whole (Rational (numeral k))"
  using whole_Num [of 0] whole_Num [of 1] whole_Num [of "numeral k"] by simp_all

lemma whole_cases: "whole v \<Longrightarrow> (\<And>k. v = Num k \<Longrightarrow> P) \<Longrightarrow> P"
  by (cases v) (auto simp: whole_def)

definition consistent :: "FileSystem \<Rightarrow> bool" where
  "consistent s \<longleftrightarrow>
     (\<forall>path r. map_of (registry s) path = Some r \<longrightarrow>
        r < nextRef s \<and> fullPath (heap s r) = path
        \<and> (type (heap s r) = File \<longrightarrow>
             (\<exists>buffer. map_of (disk s) r = Some buffer
                \<and> size_bytes (heap s r) = Num (int (length buffer)))))"

definition withinQuota :: "FileSystem \<Rightarrow> bool" where
  "withinQuota s \<longleftrightarrow> enat (getUsedDiskSpace s) \<le> getTotalDiskSpace s"

lemma getUsedDiskSpace_frame [simp]:
  "getUsedDiskSpace (s\<lparr>heap := h\<rparr>) = getUsedDiskSpace s"
  "getUsedDiskSpace (s\<lparr>nextRef := k\<rparr>) = getUsedDiskSpace s"
  "getUsedDiskSpace (s\<lparr>registry := g\<rparr>) = getUsedDiskSpace s"
  by (simp_all add: getUsedDiskSpace_def)

lemma getFreeDiskSpace_frame [simp]:
  "getFreeDiskSpace (s\<lparr>heap := h\<rparr>) = getFreeDiskSpace s"
  "getFreeDiskSpace (s\<lparr>nextRef := k\<rparr>) = getFreeDiskSpace s"
  "getFreeDiskSpace (s\<lparr>registry := g\<rparr>) = getFreeDiskSpace s"
  by (simp_all add: getFreeDiskSpace_def split: enat.splits)

lemma consistent_newFileSystem: "consistent (newFileSystem d)"
  by (simp add: consistent_def newFileSystem_def directoryDescriptor_def)

lemma consistent_registerDirectory: "consistent s \<Longrightarrow> consistent (snd (registerDirectory s path))"
  by (auto simp: consistent_def registerDirectory_def newObject_def directoryDescriptor_def
      update_conv' less_Suc_eq)

lemma makeDirectory_preserves:
  assumes "\<And>s path. P s \<Longrightarrow> P (snd (registerDirectory s path))"
  shows "P s \<Longrightarrow> P (snd (makeDirectory s path recursive))"
proof (induction s path recursive rule: makeDirectory.induct)
  case (1 s path recursive)
  show ?case
    using 1 assms
    by (subst makeDirectory.simps) (auto simp: split_beta split: option.splits sum.splits)
qed

lemma consistent_makeDirectory: "consistent s \<Longrightarrow> consistent (snd (makeDirectory s path recursive))"
  using makeDirectory_preserves [of consistent] consistent_registerDirectory by blast

lemma consistent_newObject:
  "consistent s \<Longrightarrow> consistent (snd (newObject s d))"
  by (auto simp: consistent_def newObject_def less_Suc_eq)

text \<open>The two halves of \<^verbatim>\<open>createFile\<close>: the parent directories, then the file.\<close>

definition createParent :: "FileSystem \<Rightarrow> string \<Rightarrow> ref result \<times> FileSystem" where
  "createParent s path =
     (case dirname path of
        None \<Rightarrow> (Inr 0, s)
      | Some dirName \<Rightarrow>
          if length dirName \<noteq> 0 \<and> \<not> exists s dirName
          then makeDirectory s dirName True else (Inr 0, s))"

definition allocateAndRegister ::
  "FileSystem \<Rightarrow> string \<Rightarrow> number \<Rightarrow> nat \<Rightarrow> ref result \<times> FileSystem" where
  "allocateAndRegister s1 path n now =
     (let s2 = snd (newObject s1 (newFileDescriptor path n))
      in case allocateFile s2 (nextRef s1) now of
           (Inl e, s3) \<Rightarrow> (Inl e, s3)
         | (Inr _, s3) \<Rightarrow>
             (Inr (nextRef s1), s3\<lparr>registry := AList.update path (nextRef s1) (registry s3)\<rparr>))"

lemma createFile_unfold:
  "createFile s path sizeOption now =
     (if exists s path then (Inl (TypeError (path @ '' already exists.'')), s)
      else case createParent s path of
             (Inl e, s1) \<Rightarrow> (Inl e, s1)
           | (Inr _, s1) \<Rightarrow>
               allocateAndRegister s1 path (case sizeOption of None \<Rightarrow> Num 0 | Some v \<Rightarrow> v) now)"
  by (simp add: createFile_def createParent_def allocateAndRegister_def Let_def newObject_def
      split: prod.splits sum.splits)

lemma createParent_preserves:
  assumes "\<And>s path. P s \<Longrightarrow> P (snd (registerDirectory s path))"
  shows "P s \<Longrightarrow> P (snd (createParent s path))"
  using makeDirectory_preserves [of P, OF assms]
  by (auto simp: createParent_def split: option.splits)

text \<open>
  A file of a whole size: when the quota check or \<^verbatim>\<open>new ArrayBuffer\<close> throws, only
  the descriptor object was made; otherwise the buffer is as long as the size says.
\<close>

lemma consistent_allocateAndRegister:
  assumes "consistent s1" and "whole n"
  shows "consistent (snd (allocateAndRegister s1 path n now))"
proof -
  from assms(2) obtain k where n: "n = Num k" by (rule whole_cases)
  show ?thesis
  proof (cases "gt_number n (getFreeDiskSpace s1) \<or> k < 0 \<or> k > 2 ^ 53 - 1")
    case True
    then have "snd (allocateAndRegister s1 path n now) = snd (newObject s1 (newFileDescriptor path n))"
      by (auto simp: allocateAndRegister_def allocateFile_def Let_def newObject_def
          newFileDescriptor_def n newArrayBufferOf_Num)
    with assms show ?thesis by (simp add: consistent_newObject)
  next
    case False
    then show ?thesis
      using assms(1)
      by (auto simp: allocateAndRegister_def allocateFile_def Let_def newObject_def
          newFileDescriptor_def consistent_def update_conv' newArrayBuffer_def less_Suc_eq
          n newArrayBufferOf_Num)
  qed
qed

lemma createFile_preserves:
  assumes "\<And>s path. P s \<Longrightarrow> P (snd (registerDirectory s path))"
    and "\<And>s path now. P s \<Longrightarrow>
           P (snd (allocateAndRegister s path (case sizeOption of None \<Rightarrow> Num 0 | Some v \<Rightarrow> v) now))"
  shows "P s \<Longrightarrow> P (snd (createFile s path sizeOption now))"
  using createParent_preserves [of P, OF assms(1), of s path] assms(2)
  by (auto simp: createFile_unfold split_beta split: sum.splits)

lemma consistent_createFile:
  assumes "consistent s" and "wholeSize sizeOption"
  shows "consistent (snd (createFile s path sizeOption now))"
proof (rule createFile_preserves [of consistent])
  show "consistent (snd (registerDirectory s path))" if "consistent s" for s path
    using that by (rule consistent_registerDirectory)
  have "whole (case sizeOption of None \<Rightarrow> Num 0 | Some v \<Rightarrow> v)"
    using assms(2) by (simp add: wholeSize_def split: option.splits)
  then show "consistent (snd (allocateAndRegister s path
               (case sizeOption of None \<Rightarrow> Num 0 | Some v \<Rightarrow> v) now))"
    if "consistent s" for s path now
    using that consistent_allocateAndRegister by blast
  show "consistent s" by (rule assms(1))
qed

lemma consistent_writeFile: "consistent s \<Longrightarrow> consistent (snd (writeFile s d b now))"
  by (auto simp: consistent_def writeFile_def Let_def update_conv')

lemma consistent_flush: "consistent s \<Longrightarrow> consistent (snd (flush s h now))"
  by (auto simp: flush_def consistent_writeFile split: sum.splits)

lemma consistent_purge: "consistent (purge s)"
  by (auto simp: consistent_def purge_def newObject_def directoryDescriptor_def Let_def
      split: if_splits)

lemma consistent_setTotalDiskSpace: "consistent s \<Longrightarrow> consistent (snd (setTotalDiskSpace s d))"
  by (auto simp: consistent_def setTotalDiskSpace_def Let_def)

lemma getFileDescriptor_preserves:
  assumes "\<And>s path. P s \<Longrightarrow> P (snd (registerDirectory s path))"
    and "\<And>s path now. P s \<Longrightarrow> P (snd (allocateAndRegister s path (Num 0) now))"
  shows "P s \<Longrightarrow> P (snd (getFileDescriptor s path createAt))"
  using createFile_preserves [of P None, OF assms(1)] assms(2)
  by (auto simp: getFileDescriptor_def split_beta split: option.splits sum.splits)

lemma getDirectoryDescriptor_preserves:
  assumes "\<And>s path. P s \<Longrightarrow> P (snd (registerDirectory s path))"
  shows "P s \<Longrightarrow> P (snd (getDirectoryDescriptor s path create))"
  using makeDirectory_preserves [of P, OF assms]
  by (auto simp: getDirectoryDescriptor_def split_beta split: option.splits sum.splits)

text \<open>
  \<^verbatim>\<open>remove\<close> deletes a file's disk record together with its registry entry, and
  otherwise registry entries only.
\<close>

lemma remove_preserves:
  assumes fileCase: "\<And>s path d. P s \<Longrightarrow> map_of (registry s) path = Some d \<Longrightarrow>
            P (s\<lparr>disk := AList.delete d (disk s), registry := AList.delete path (registry s)\<rparr>)"
    and entryCase: "\<And>s path. P s \<Longrightarrow> P (s\<lparr>registry := AList.delete path (registry s)\<rparr>)"
  shows "(\<forall>s path. P s \<longrightarrow> P (snd (remove n s path recursive)))
       \<and> (\<forall>s paths. P s \<longrightarrow> P (snd (removeEach n s paths recursive)))"
proof (induction n)
  case 0
  have "P s \<Longrightarrow> P (snd (removeEach 0 s paths recursive))" for s paths
    by (induction paths arbitrary: s) auto
  then show ?case by simp
next
  case (Suc n)
  have r: "P (snd (remove (Suc n) s path recursive))" if "P s" for s path
  proof (cases "isFile s path")
    case True
    then obtain d where d: "map_of (registry s) path = Some d"
      by (auto simp: isFile_def split: option.splits)
    with True have "getFileDescriptor s path None = (Inr (Some d), s)"
      by (simp add: getFileDescriptor_def exists_def)
    with True fileCase [OF that d] that show ?thesis
      by (simp add: Let_def)
  next
    case False
    obtain res s1 where e: "removeEach n s (getChildPaths s path) recursive = (res, s1)"
      by (cases "removeEach n s (getChildPaths s path) recursive")
    with Suc that have p1: "P s1"
      by (metis snd_conv)
    from entryCase [OF p1] entryCase [OF that] have
      "P (s1\<lparr>registry := AList.delete path (registry s1)\<rparr>)"
      "P (s\<lparr>registry := AList.delete path (registry s)\<rparr>)"
      by blast+
    with False e p1 that show ?thesis
      by (auto simp: Let_def split: option.splits sum.splits)
  qed
  have "P s \<Longrightarrow> P (snd (removeEach (Suc n) s paths recursive))" for s paths
  proof (induction paths arbitrary: s)
    case Nil
    then show ?case by simp
  next
    case (Cons c cs)
    obtain res s1 where e: "remove (Suc n) s c recursive = (res, s1)"
      by (cases "remove (Suc n) s c recursive")
    with r [OF Cons.prems, of c] have p1: "P s1" by simp
    show ?case
    proof (cases res)
      case None
      with e p1 show ?thesis by (simp del: remove.simps)
    next
      case (Some outcome)
      with e p1 Cons.IH [OF p1] show ?thesis
        by (cases outcome) (simp_all del: remove.simps)
    qed
  qed
  with r show ?case by blast
qed

lemma consistent_remove: "consistent s \<Longrightarrow> consistent (snd (remove n s path recursive))"
proof -
  have "consistent (s\<lparr>disk := AList.delete d (disk s), registry := AList.delete path (registry s)\<rparr>)"
    if "consistent s" and "map_of (registry s) path = Some d" for s path d
    using that unfolding consistent_def
    by (auto simp: delete_conv' split: if_splits)
  moreover have "consistent (s\<lparr>registry := AList.delete path (registry s)\<rparr>)"
    if "consistent s" for s path
    using that unfolding consistent_def by (auto simp: delete_conv' split: if_splits)
  ultimately show "consistent s \<Longrightarrow> consistent (snd (remove n s path recursive))"
    using remove_preserves [of consistent n recursive] by blast
qed

lemma foldl_used: "foldl (\<lambda>total buffer. total + length buffer) a bs = a + sum_list (map length bs)"
  by (induction bs arbitrary: a) simp_all

lemma getUsedDiskSpace_sum: "getUsedDiskSpace s = sum_list (map (length \<circ> snd) (disk s))"
  by (simp add: getUsedDiskSpace_def foldl_used comp_def)

lemma used_update:
  "sum_list (map (length \<circ> snd) (AList.update k v al))
     + (case map_of al k of None \<Rightarrow> 0 | Some old \<Rightarrow> length old)
   = sum_list (map (length \<circ> snd) al) + length v"
  by (induction al) auto

lemma used_delete:
  "sum_list (map (length \<circ> snd) (AList.delete k al)) \<le> sum_list (map (length \<circ> snd) al)"
  by (induction al) auto

lemma getUsedDiskSpace_update:
  "getUsedDiskSpace (s\<lparr>disk := AList.update k v (disk s)\<rparr>)
     + (case map_of (disk s) k of None \<Rightarrow> 0 | Some old \<Rightarrow> length old)
   = getUsedDiskSpace s + length v"
  using used_update [of k v "disk s"] by (simp add: getUsedDiskSpace_sum)

lemma getUsedDiskSpace_delete:
  "getUsedDiskSpace (s\<lparr>disk := AList.delete k (disk s)\<rparr>) \<le> getUsedDiskSpace s"
  using used_delete [of k "disk s"] by (simp add: getUsedDiskSpace_sum)

lemma withinQuota_frame [simp]:
  "withinQuota (s\<lparr>heap := h\<rparr>) = withinQuota s"
  "withinQuota (s\<lparr>nextRef := k\<rparr>) = withinQuota s"
  "withinQuota (s\<lparr>registry := g\<rparr>) = withinQuota s"
  by (simp_all add: withinQuota_def getTotalDiskSpace_def)

lemma withinQuota_cong:
  "disk s' = disk s \<Longrightarrow> diskSize s' = diskSize s \<Longrightarrow> withinQuota s' = withinQuota s"
  by (simp add: withinQuota_def getTotalDiskSpace_def getUsedDiskSpace_def)

lemma withinQuota_newFileSystem: "withinQuota (newFileSystem d)"
  by (simp add: withinQuota_def newFileSystem_def getUsedDiskSpace_def getTotalDiskSpace_def
      zero_enat_def [symmetric])

lemma withinQuota_registerDirectory: "withinQuota s \<Longrightarrow> withinQuota (snd (registerDirectory s path))"
  by (simp add: registerDirectory_def newObject_def)

lemma withinQuota_store:
  assumes "withinQuota s"
    and "\<not> gt_number (Num (int (length v)))
            (plus_number (getFreeDiskSpace s)
               (Num (int (case map_of (disk s) k of None \<Rightarrow> 0 | Some old \<Rightarrow> length old))))"
  shows "withinQuota (s\<lparr>disk := AList.update k v (disk s)\<rparr>)"
proof (cases "diskSize s")
  case (enat d)
  with assms(2) have "(of_int (int (length v)) :: rat)
      \<le> of_int (int d - int (getUsedDiskSpace s)
           + int (case map_of (disk s) k of None \<Rightarrow> 0 | Some old \<Rightarrow> length old))"
    by (simp add: getFreeDiskSpace_def not_less)
  then have "int (length v)
      \<le> int d - int (getUsedDiskSpace s)
         + int (case map_of (disk s) k of None \<Rightarrow> 0 | Some old \<Rightarrow> length old)"
    by (simp only: of_int_le_iff)
  with getUsedDiskSpace_update [where s = s and k = k and v = v] enat show ?thesis
    by (simp add: withinQuota_def getTotalDiskSpace_def)
next
  case infinity
  then show ?thesis by (simp add: withinQuota_def getTotalDiskSpace_def)
qed

text \<open>
  The buffer \<^verbatim>\<open>new ArrayBuffer(n)\<close> makes is not longer than a bound that \<open>n\<close>
  does not exceed.
\<close>

lemma newArrayBufferOf_length:
  assumes "newArrayBufferOf n = Inr buffer" and "\<not> gt_number n (Rational f)" and "0 \<le> f"
  shows "of_nat (length buffer) \<le> f"
proof (cases n)
  case (Rational q)
  with assms(1) have t: "0 \<le> truncated q" and l: "length buffer = nat (truncated q)"
    by (auto simp: newArrayBufferOf_def newArrayBuffer_def split: if_splits)
  from Rational assms(2) have q: "q \<le> f" by simp
  have "of_int (truncated q) \<le> max q 0"
  proof (cases "q < 0")
    case True
    then have "0 \<le> \<lfloor>- q\<rfloor>" by simp
    moreover from t True have "\<lfloor>- q\<rfloor> \<le> 0" by (simp add: truncated_def)
    ultimately have "\<lfloor>- q\<rfloor> = 0" by linarith
    with True have "truncated q = 0" by (simp add: truncated_def)
    then show ?thesis by simp
  next
    case False
    then show ?thesis by (simp add: truncated_def)
  qed
  with q assms(3) have "of_int (truncated q) \<le> f" by simp
  with t l show ?thesis by simp
next
  case NotANumber
  with assms show ?thesis by (simp add: newArrayBufferOf_def newArrayBuffer_def)
qed (use assms in \<open>simp_all add: newArrayBufferOf_def\<close>)

lemma getFreeDiskSpace_cases:
  assumes "withinQuota s"
  obtains f where "getFreeDiskSpace s = Rational f" and "0 \<le> f"
    | "getFreeDiskSpace s = Infinity"
proof (cases "diskSize s")
  case (enat d)
  with assms have "getUsedDiskSpace s \<le> d"
    by (simp add: withinQuota_def getTotalDiskSpace_def)
  with enat that(1) [of "of_int (int d - int (getUsedDiskSpace s))"] show ?thesis
    by (simp add: getFreeDiskSpace_def)
next
  case infinity
  with that(2) show ?thesis by (simp add: getFreeDiskSpace_def)
qed

lemma withinQuota_allocateAndRegister:
  assumes "withinQuota s"
  shows "withinQuota (snd (allocateAndRegister s path n now))"
proof (cases "gt_number n (getFreeDiskSpace s)")
  case True
  with assms show ?thesis
    by (simp add: allocateAndRegister_def allocateFile_def Let_def newObject_def newFileDescriptor_def)
next
  case False
  show ?thesis
  proof (cases "newArrayBufferOf n")
    case (Inl e)
    with False assms show ?thesis
      by (simp add: allocateAndRegister_def allocateFile_def Let_def newObject_def
          newFileDescriptor_def)
  next
    case (Inr buffer)
    have "\<not> gt_number (Num (int (length buffer)))
              (plus_number (getFreeDiskSpace s)
                 (Num (int (case map_of (disk s) (nextRef s) of None \<Rightarrow> 0 | Some old \<Rightarrow> length old))))"
    proof (rule getFreeDiskSpace_cases [OF assms])
      fix f
      assume f: "getFreeDiskSpace s = Rational f" "0 \<le> f"
      from newArrayBufferOf_length [OF Inr _ f(2)] False f(1)
      have "of_nat (length buffer) \<le> f" by simp
      then show ?thesis
        by (simp add: f(1) not_less add_increasing2)
    next
      assume "getFreeDiskSpace s = Infinity"
      then show ?thesis by simp
    qed
    from withinQuota_store [OF assms this]
    have "withinQuota (s\<lparr>disk := AList.update (nextRef s) buffer (disk s)\<rparr>)" .
    moreover have "withinQuota (snd (allocateAndRegister s path n now))
        = withinQuota (s\<lparr>disk := AList.update (nextRef s) buffer (disk s)\<rparr>)"
      using False Inr
      by (intro withinQuota_cong)
         (simp_all add: allocateAndRegister_def allocateFile_def Let_def newObject_def
            newFileDescriptor_def)
    ultimately show ?thesis by simp
  qed
qed

lemma withinQuota_writeFile: "withinQuota s \<Longrightarrow> withinQuota (snd (writeFile s d b now))"
  using withinQuota_store [where s = s and v = b and k = d]
  by (auto simp: writeFile_def Let_def)

lemma withinQuota_delete:
  "withinQuota s \<Longrightarrow> withinQuota (s\<lparr>disk := AList.delete d (disk s)\<rparr>)"
  using getUsedDiskSpace_delete [where k = d and s = s]
  by (cases "diskSize s") (auto simp: withinQuota_def getTotalDiskSpace_def)

lemma withinQuota_remove: "withinQuota s \<Longrightarrow> withinQuota (snd (remove n s path recursive))"
proof -
  have "withinQuota (s\<lparr>disk := AList.delete d (disk s), registry := AList.delete path (registry s)\<rparr>)"
    if "withinQuota s" for s path d
    using withinQuota_delete [OF that, of d] by simp
  moreover have "withinQuota (s\<lparr>registry := AList.delete path (registry s)\<rparr>)"
    if "withinQuota s" for s path
    using that by simp
  ultimately show "withinQuota s \<Longrightarrow> withinQuota (snd (remove n s path recursive))"
    using remove_preserves [of withinQuota n recursive] by blast
qed

lemma withinQuota_purge: "withinQuota (purge s)"
  by (simp add: purge_def newObject_def Let_def withinQuota_def getUsedDiskSpace_def
      zero_enat_def [symmetric])

lemma withinQuota_setTotalDiskSpace: "withinQuota s \<Longrightarrow> withinQuota (snd (setTotalDiskSpace s d))"
  by (auto simp: setTotalDiskSpace_def Let_def withinQuota_def getTotalDiskSpace_def getUsedDiskSpace_def)

text \<open>
  The states of a file system: a new one, and the state each public operation leaves,
  whether it returns or throws. \<open>reachableWith ok\<close> are the states reached when every
  \<^verbatim>\<open>size\<close> option given to \<^verbatim>\<open>createFile\<close> satisfies \<open>ok\<close>, and \<open>reachable\<close>
  are the states reached with any \<^verbatim>\<open>size\<close> option.
\<close>

inductive reachableWith :: "(number option \<Rightarrow> bool) \<Rightarrow> FileSystem \<Rightarrow> bool"
  for ok :: "number option \<Rightarrow> bool" where
  new: "reachableWith ok (newFileSystem d)"
| makeDirectory: "reachableWith ok s \<Longrightarrow> reachableWith ok (snd (makeDirectory s path recursive))"
| getDirectoryDescriptor:
    "reachableWith ok s \<Longrightarrow> reachableWith ok (snd (getDirectoryDescriptor s path create))"
| createFile:
    "reachableWith ok s \<Longrightarrow> ok sizeOption \<Longrightarrow> reachableWith ok (snd (createFile s path sizeOption now))"
| getFileDescriptor: "reachableWith ok s \<Longrightarrow> reachableWith ok (snd (getFileDescriptor s path createAt))"
| writeFile: "reachableWith ok s \<Longrightarrow> reachableWith ok (snd (writeFile s descriptor contents now))"
| flush: "reachableWith ok s \<Longrightarrow> reachableWith ok (snd (flush s h now))"
| remove: "reachableWith ok s \<Longrightarrow> reachableWith ok (snd (remove n s path recursive))"
| purge: "reachableWith ok s \<Longrightarrow> reachableWith ok (purge s)"
| setTotalDiskSpace: "reachableWith ok s \<Longrightarrow> reachableWith ok (snd (setTotalDiskSpace s newSize))"

abbreviation reachable :: "FileSystem \<Rightarrow> bool" where
  "reachable \<equiv> reachableWith (\<lambda>sizeOption. True)"

lemma reachable_consistent: "reachableWith wholeSize s \<Longrightarrow> consistent s"
proof (induction rule: reachableWith.induct)
  case (new d)
  show ?case by (rule consistent_newFileSystem)
next
  case (makeDirectory s path recursive)
  then show ?case by (simp add: consistent_makeDirectory)
next
  case (getDirectoryDescriptor s path create)
  then show ?case
    using getDirectoryDescriptor_preserves [of consistent] consistent_registerDirectory by blast
next
  case (createFile s sizeOption path now)
  then show ?case by (simp add: consistent_createFile)
next
  case (getFileDescriptor s path createAt)
  then show ?case
    using getFileDescriptor_preserves [of consistent] consistent_registerDirectory
      consistent_allocateAndRegister [OF _ whole_Num] by blast
next
  case (writeFile s descriptor contents now)
  then show ?case by (simp add: consistent_writeFile)
next
  case (flush s h now)
  then show ?case by (simp add: consistent_flush)
next
  case (remove s n path recursive)
  then show ?case by (simp add: consistent_remove del: remove.simps)
next
  case (purge s)
  show ?case by (rule consistent_purge)
next
  case (setTotalDiskSpace s newSize)
  then show ?case by (simp add: consistent_setTotalDiskSpace)
qed

lemma reachable_withinQuota: "reachableWith ok s \<Longrightarrow> withinQuota s"
proof (induction rule: reachableWith.induct)
  case (new d)
  show ?case by (rule withinQuota_newFileSystem)
next
  case (makeDirectory s path recursive)
  then show ?case
    using makeDirectory_preserves [of withinQuota] withinQuota_registerDirectory by blast
next
  case (getDirectoryDescriptor s path create)
  then show ?case
    using getDirectoryDescriptor_preserves [of withinQuota] withinQuota_registerDirectory by blast
next
  case (createFile s sizeOption path now)
  then show ?case
    using createFile_preserves [of withinQuota] withinQuota_registerDirectory
      withinQuota_allocateAndRegister by blast
next
  case (getFileDescriptor s path createAt)
  then show ?case
    using getFileDescriptor_preserves [of withinQuota] withinQuota_registerDirectory
      withinQuota_allocateAndRegister by blast
next
  case (writeFile s descriptor contents now)
  then show ?case by (simp add: withinQuota_writeFile)
next
  case (flush s h now)
  then show ?case by (auto simp: flush_def withinQuota_writeFile split: sum.splits)
next
  case (remove s n path recursive)
  then show ?case by (simp add: withinQuota_remove del: remove.simps)
next
  case (purge s)
  show ?case by (rule withinQuota_purge)
next
  case (setTotalDiskSpace s newSize)
  then show ?case by (simp add: withinQuota_setTotalDiskSpace)
qed

section \<open>Claims about the file system\<close>

text \<open>
  When every \<^verbatim>\<open>size\<close> given to \<^verbatim>\<open>createFile\<close> is a whole number, a registered
  file descriptor has, in every state the public operations can reach, a disk record whose
  length is the descriptor's \<^verbatim>\<open>size\<close>, and \<^verbatim>\<open>getFileSize\<close> of its path returns
  that size.
\<close>

lemma size_consistency_of_whole_sizes:
  assumes "reachableWith wholeSize s" and "map_of (registry s) path = Some r"
    and "type (heap s r) = File"
  shows "(\<exists>buffer. map_of (disk s) r = Some buffer
            \<and> size_bytes (heap s r) = Num (int (length buffer)))
       \<and> map_option (\<lambda>n. Num (int n)) (getFileSize s path) = Some (size_bytes (heap s r))"
proof -
  from reachable_consistent [OF assms(1)] assms(2,3)
  obtain buffer where b: "map_of (disk s) r = Some buffer"
    "size_bytes (heap s r) = Num (int (length buffer))"
    unfolding consistent_def by blast
  with assms(2,3) show ?thesis
    by (simp add: getFileSize_def getDescriptor_def)
qed

text \<open>
  C9. \<^verbatim>\<open>createFile\<close> stores the \<^verbatim>\<open>size\<close> it is given in the descriptor and
  allocates \<^verbatim>\<open>new ArrayBuffer(size)\<close>, which cuts a fraction off. After
  \<^verbatim>\<open>new FileSystem().createFile("f", {size: 2.5})\<close> the registered file descriptor has
  the \<^verbatim>\<open>size\<close> 2.5, its disk record has 2 bytes, and \<^verbatim>\<open>getFileSize("f")\<close> returns
  2: the state is reachable and the size is not the byte length of the buffer.
\<close>

lemma newArrayBufferOf_five_halves: "newArrayBufferOf (Rational (5 / 2)) = Inr [0, 0]"
proof -
  have "\<lfloor>5 / 2 :: rat\<rfloor> = 2" by (simp add: floor_eq_iff)
  then show ?thesis
    by (simp add: newArrayBufferOf_def truncated_def newArrayBuffer_def numeral_eq_Suc)
qed

definition fractionalFile :: FileSystem where
  "fractionalFile = snd (createFile (newFileSystem \<infinity>) ''f'' (Some (Rational (5 / 2))) 0)"

lemma fractionalFile_eq:
  "fractionalFile =
    \<lparr>registry = [([], 0), (''f'', 1)], disk = [(1, [0, 0])], diskSize = \<infinity>,
      heap = ((\<lambda>_. directoryDescriptor [])
                (1 := \<lparr>type = File, fullPath = ''f'', size_bytes = Rational (5 / 2),
                        lastModified = Some 0\<rparr>)),
      nextRef = 2\<rparr>"
  by (simp add: fractionalFile_def createFile_def newFileSystem_def exists_def dirname_def
      pathSegments_def newObject_def allocateFile_def newFileDescriptor_def Let_def
      getFreeDiskSpace_def getUsedDiskSpace_def isSeparator_def
      newArrayBufferOf_five_halves)

theorem createFile_fractional_size:
  "fst (createFile (newFileSystem \<infinity>) ''f'' (Some (Rational (5 / 2))) 0) = Inr 1
   \<and> reachable fractionalFile
   \<and> map_of (registry fractionalFile) ''f'' = Some 1
   \<and> type (heap fractionalFile 1) = File
   \<and> size_bytes (heap fractionalFile 1) = Rational (5 / 2)
   \<and> map_of (disk fractionalFile) 1 = Some [0, 0]
   \<and> getFileSize fractionalFile ''f'' = Some 2
   \<and> size_bytes (heap fractionalFile 1) \<noteq> Num 2"
proof -
  have "reachable fractionalFile"
    unfolding fractionalFile_def
    by (intro reachableWith.createFile reachableWith.new) simp
  moreover have "fst (createFile (newFileSystem \<infinity>) ''f'' (Some (Rational (5 / 2))) 0) = Inr 1"
    by (simp add: createFile_def newFileSystem_def exists_def dirname_def
      pathSegments_def newObject_def allocateFile_def newFileDescriptor_def Let_def
      getFreeDiskSpace_def getUsedDiskSpace_def isSeparator_def
      newArrayBufferOf_five_halves)
  ultimately show ?thesis
    by (simp add: fractionalFile_eq getFileSize_def getDescriptor_def)
qed

text \<open>
  C1 and C3. The quota invariant itself holds in every reachable state
  (\<open>reachable_withinQuota\<close>), and \<^verbatim>\<open>writeFile\<close> and \<^verbatim>\<open>truncate\<close> check before
  they change anything. \<^verbatim>\<open>createFile\<close> creates the missing parent directories before
  \<^verbatim>\<open>allocateFile\<close> checks the quota: on a disk of 512 bytes,
  \<^verbatim>\<open>createFile("x/a", {size: 513})\<close> throws the \<^verbatim>\<open>RangeError\<close> and leaves the
  directory \<^verbatim>\<open>x\<close> in the registry.
\<close>

lemma createFile_oversized:
  "createFile (newFileSystem 512) ''x/a'' (Some (Num 513)) 0 =
     (Inl (RangeError ''Not enough free space.''),
      \<lparr>registry = [([], 0), (''x'', 1)], disk = [], diskSize = 512,
       heap = ((\<lambda>_. directoryDescriptor [])
                 (1 := directoryDescriptor ''x'',
                  2 := \<lparr>type = File, fullPath = ''x/a'', size_bytes = Num 513, lastModified = None\<rparr>)),
       nextRef = 3\<rparr>)"
proof -
  have d: "dirname ''x/a'' = Some ''x''" "dirname ''x'' = Some []"
    by (simp_all add: dirname_def pathSegments_def isSeparator_def)
  have m: "makeDirectory (newFileSystem 512) ''x'' True =
     (Inr 1, \<lparr>registry = [([], 0), (''x'', 1)], disk = [], diskSize = 512,
       heap = ((\<lambda>_. directoryDescriptor [])(1 := directoryDescriptor ''x'')), nextRef = 2\<rparr>)"
    by (subst makeDirectory.simps)
       (simp add: d exists_def newFileSystem_def registerDirectory_def newObject_def)
  show ?thesis
    unfolding createFile_def
    by (simp add: d m, simp add: exists_def newFileSystem_def newObject_def allocateFile_def
        newFileDescriptor_def getFreeDiskSpace_def getUsedDiskSpace_def Let_def
        enat_numeral [symmetric] numeral_eq_Suc fun_upd_twist del: enat_numeral)
qed

theorem createFile_quota_rejection_creates_parent:
  "fst (createFile (newFileSystem 512) ''x/a'' (Some (Num 513)) 0) = Inl (RangeError ''Not enough free space.'')
   \<and> registry (newFileSystem 512) = [([], 0)]
   \<and> registry (snd (createFile (newFileSystem 512) ''x/a'' (Some (Num 513)) 0)) = [([], 0), (''x'', 1)]
   \<and> withinQuota (snd (createFile (newFileSystem 512) ''x/a'' (Some (Num 513)) 0))"
proof -
  have "reachable (snd (createFile (newFileSystem 512) ''x/a'' (Some (Num 513)) 0))"
    by (intro reachableWith.createFile reachableWith.new) simp
  then have "withinQuota (snd (createFile (newFileSystem 512) ''x/a'' (Some (Num 513)) 0))"
    by (rule reachable_withinQuota)
  moreover have "registry (newFileSystem 512) = [([], 0)]"
    by (simp add: newFileSystem_def)
  moreover have "fst (createFile (newFileSystem 512) ''x/a'' (Some (Num 513)) 0)
                   = Inl (RangeError ''Not enough free space.'')"
    "registry (snd (createFile (newFileSystem 512) ''x/a'' (Some (Num 513)) 0)) = [([], 0), (''x'', 1)]"
    using createFile_oversized by simp_all
  ultimately show ?thesis
    by blast
qed

text \<open>
  C3. Besides \<^verbatim>\<open>createFile\<close>, \<^verbatim>\<open>SyncAccessHandle.write\<close> changes state before it
  throws: a write beyond the end of the buffer appends the zero bytes of the gap before the
  quota check. On a disk of 4 bytes, \<^verbatim>\<open>write([1,2,3], {at: 2})\<close> on the empty buffer throws
  the quota error and leaves a buffer of 2 bytes.
\<close>

theorem rejected_operations_change_state:
  "fst (createFile (newFileSystem 512) ''x/a'' (Some (Num 513)) 0) = Inl (RangeError ''Not enough free space.'')
   \<and> \<not> exists (newFileSystem 512) ''x''
   \<and> exists (snd (createFile (newFileSystem 512) ''x/a'' (Some (Num 513)) 0)) ''x''
   \<and> sah_write (exampleDisk 4) exampleHandle [1, 2, 3] (Some 2)
        = (Inl quotaExceeded, exampleHandle\<lparr>tempFile := [0, 0]\<rparr>)
   \<and> length (tempFile exampleHandle) = 0"
proof -
  have room: "availableRoom (exampleDisk 4) exampleHandle = Num 4"
    by (simp add: availableRoom_def exampleDisk_eq exampleHandle_def getFreeDiskSpace_def
        getUsedDiskSpace_def enat_numeral [symmetric] del: enat_numeral)
  have h: "state exampleHandle = Open" "0 \<le> writePositionOf exampleHandle (Some 2)"
    and t: "tempFile exampleHandle = []"
    by (simp_all add: exampleHandle_def writePositionOf_def)
  have w: "sah_write (exampleDisk 4) exampleHandle [1, 2, 3] (Some 2)
        = (Inl quotaExceeded, exampleHandle\<lparr>tempFile := [0, 0]\<rparr>)"
    by (simp add: sah_write_unfold [OF h] room writePositionOf_def lengthAfterWrite_def Let_def t
        numeral_eq_Suc)
  have c: "fst (createFile (newFileSystem 512) ''x/a'' (Some (Num 513)) 0)
             = Inl (RangeError ''Not enough free space.'')"
    "exists (snd (createFile (newFileSystem 512) ''x/a'' (Some (Num 513)) 0)) ''x''"
    using createFile_oversized by (simp_all add: exists_def)
  have n: "\<not> exists (newFileSystem 512) ''x''"
    by (simp add: exists_def newFileSystem_def)
  from w c n t show ?thesis
    by simp
qed

end
